theory Spec2Isabelle
  imports Main "HOL-Library.Word"
begin

section \<open>The values of the script\<close>

text \<open>
  \<^verbatim>\<open>analyze_safetensors.py\<close> is one script: it opens \<^verbatim>\<open>model.safetensors\<close>, reads an
  8-byte length, reads and parses a JSON header, adds up element counts per dtype and prints a
  table. The file is a list of bytes. The header is whatever \<^verbatim>\<open>json.loads\<close> returns: a
  dynamically typed value, so the model keeps every shape such a value can have, and every
  operation of the script checks the type of its operand the way the interpreter does.

  A text is a \<open>string\<close>: the bytes of its UTF-8 encoding, which are what \<^verbatim>\<open>print\<close> writes (a
  text with no UTF-8 encoding, a lone surrogate, is outside the model). A dictionary is the
  list of its items in insertion order; \<^verbatim>\<open>json.loads\<close> builds dictionaries with distinct
  keys, and the theorems hold for every item list. Integers are unbounded, as Python's.
\<close>

type_synonym byte = "8 word"

text \<open>
  A float is a binary64 value, kept as what it stands for: a sign and a fraction \<open>n / d\<close>
  (with \<open>d > 0\<close>; both zeros are there), an infinity with its sign, or the not-a-number.
\<close>

datatype float = Finite bool nat nat | Infinity bool | NaN

datatype pyval =
    PyNone
  | PyBool bool
  | PyInt int
  | PyFloat float
  | PyStr string
  | PyList "pyval list"
  | PyDict "(string \<times> pyval) list"

text \<open>
  The exceptions the script can end with. \<open>KeyError\<close> carries its argument, the key that was
  not found. \<open>JSONDecodeError\<close>, \<open>UnicodeDecodeError\<close> (with their message) and
  \<open>RecursionError\<close> are the parser's.
\<close>

datatype error =
    FileNotFoundError
  | JSONDecodeError string
  | UnicodeDecodeError string
  | RecursionError
  | AttributeError
  | KeyError string
  | TypeError
  | ValueError
  | ZeroDivisionError
  | OverflowError
  | MemoryError

text \<open>
  How a run ends: the script reaches its last line, \<^verbatim>\<open>sys.exit(n)\<close> is called, or an
  exception is not caught (the interpreter prints a traceback and exits with status 1).
\<close>

datatype ending = Finished | SystemExit nat | Uncaught error

fun exit_status :: "ending \<Rightarrow> nat" where
  "exit_status Finished = 0"
| "exit_status (SystemExit n) = n"
| "exit_status (Uncaught e) = 1"

text \<open>
  What a run leaves behind: the text of each \<^verbatim>\<open>print\<close> call in order (the interpreter ends
  each with a newline), the size asked of each \<^verbatim>\<open>f.read\<close> call in order, and the ending.
\<close>

record run =
  stdout :: "string list"
  reads :: "nat list"
  ending :: ending

text \<open>
  What the script does not decide, the machine it runs on does. \<open>memory\<close> is the size of the
  largest object (the bytes of a read, the characters of a text, the items of a list) the
  interpreter can still make room for; an object of at most 8 items always finds room, as
  the other small objects of a run do. \<open>finite_repr\<close> is the text \<^verbatim>\<open>repr\<close> gives for a
  finite float of sign \<open>s\<close> and value \<open>n / d\<close> (the shortest decimal text that reads back as
  the same float), a function of the interpreter.
\<close>

record runtime =
  memory :: nat
  finite_repr :: "bool \<Rightarrow> nat \<Rightarrow> nat \<Rightarrow> string"

definition no_room :: "runtime \<Rightarrow> nat \<Rightarrow> bool" where
  "no_room rt n = (8 < n \<and> memory rt < n)"

section \<open>The file\<close>

text \<open>
  An open binary file: its content, the position of the next byte, and the sizes asked so
  far. \<^verbatim>\<open>f.read(n)\<close> first makes a bytes object of \<open>n\<close> bytes: that raises
  \<^verbatim>\<open>OverflowError\<close> when \<open>n\<close> is within 33 of \<open>2 ^ 63\<close> or beyond (the size of the object
  would not fit a signed 64-bit number), and \<^verbatim>\<open>MemoryError\<close> when there is no room for it.
  Otherwise the call returns the next \<open>n\<close> bytes, or as many as are left.
\<close>

record binfile =
  content :: "byte list"
  pos :: nat
  requests :: "nat list"

definition open_rb :: "byte list \<Rightarrow> binfile" where
  "open_rb bs = \<lparr>content = bs, pos = 0, requests = []\<rparr>"

definition read_error :: "runtime \<Rightarrow> nat \<Rightarrow> error option" where
  "read_error rt n =
     (if 2 ^ 63 - 33 \<le> n then Some OverflowError
      else if no_room rt n then Some MemoryError
      else None)"

definition read :: "runtime \<Rightarrow> binfile \<Rightarrow> nat \<Rightarrow> (error + byte list) \<times> binfile" where
  "read rt f n =
     (let f = f\<lparr>requests := requests f @ [n]\<rparr>
      in case read_error rt n of
           Some e \<Rightarrow> (Inl e, f)
         | None \<Rightarrow>
             (let got = take n (drop (pos f) (content f))
              in (Inr got, f\<lparr>pos := pos f + length got\<rparr>)))"

definition filename :: string where
  "filename = ''model.safetensors''"

text \<open>\<^verbatim>\<open>struct.unpack("<Q", b)[0]\<close>: the bytes as an unsigned number, least significant first.\<close>

fun unpack_Q :: "byte list \<Rightarrow> nat" where
  "unpack_Q [] = 0"
| "unpack_Q (b # bs) = unat b + 256 * unpack_Q bs"

section \<open>Printing integers\<close>

definition digit :: "nat \<Rightarrow> char" where
  "digit n = ''0123456789'' ! n"

fun str_nat :: "nat \<Rightarrow> string" where
  "str_nat n = (if n < 10 then [digit n] else str_nat (n div 10) @ [digit (n mod 10)])"

declare str_nat.simps [simp del]

definition str_int :: "int \<Rightarrow> string" where
  "str_int i = (if i < 0 then CHR ''-'' # str_nat (nat (- i)) else str_nat (nat i))"

text \<open>
  \<^verbatim>\<open>str(i)\<close>, which is what \<^verbatim>\<open>{i}\<close> in an f-string calls: the interpreter refuses to print
  an integer of more than 4300 digits (the sign not counted) and raises \<^verbatim>\<open>ValueError\<close>.
\<close>

definition too_long :: "int \<Rightarrow> bool" where
  "too_long i = (10 ^ 4300 \<le> \<bar>i\<bar>)"

definition format_int :: "int \<Rightarrow> error + string" where
  "format_int i = (if too_long i then Inl ValueError else Inr (str_int i))"

section \<open>Float arithmetic\<close>

text \<open>
  Every operation gives the binary64 value nearest to the exact result, a tie going to the
  value whose last bit is 0.
\<close>

text \<open>\<open>n / d\<close> rounded to an integer, a tie going to the even neighbour (\<open>d > 0\<close>).\<close>

definition round_half_even :: "nat \<Rightarrow> nat \<Rightarrow> nat" where
  "round_half_even n d =
     (let q = n div d; r = n mod d
      in if 2 * r < d then q
         else if d < 2 * r then q + 1
         else if even q then q else q + 1)"

text \<open>The number of binary digits of \<open>n\<close>.\<close>

fun bitlen :: "nat \<Rightarrow> nat" where
  "bitlen n = (if n = 0 then 0 else Suc (bitlen (n div 2)))"

declare bitlen.simps [simp del]

text \<open>The exponent of \<open>n / d\<close>: the largest \<open>k\<close> with \<open>2 ^ k \<le> n / d\<close> (\<open>n > 0\<close>, \<open>d > 0\<close>).\<close>

definition ilog2 :: "nat \<Rightarrow> nat \<Rightarrow> int" where
  "ilog2 n d =
     (let k = int (bitlen n) - int (bitlen d)
      in if (if 0 \<le> k then d * 2 ^ nat k \<le> n else d \<le> n * 2 ^ nat (- k)) then k else k - 1)"

text \<open>
  The binary64 value nearest to \<open>n / d\<close> (\<open>n > 0\<close>, \<open>d > 0\<close>), as a fraction: 53 significant
  bits, the unit in the last place never below \<open>2 ^ - 1074\<close>; \<open>None\<close> when the rounded value
  reaches \<open>2 ^ 1024\<close>, beyond the largest float.
\<close>

definition nearest_double :: "nat \<Rightarrow> nat \<Rightarrow> (nat \<times> nat) option" where
  "nearest_double n d =
     (let e = max (ilog2 n d - 52) (- 1074)
      in if 0 \<le> e
         then (let v = round_half_even n (d * 2 ^ nat e) * 2 ^ nat e
               in if 2 ^ 1024 \<le> v then None else Some (v, 1))
         else Some (round_half_even (n * 2 ^ nat (- e)) d, 2 ^ nat (- e)))"

text \<open>The float for \<open>n / d\<close> with the sign \<open>s\<close>: an overflow gives an infinity.\<close>

definition round_float :: "bool \<Rightarrow> nat \<Rightarrow> nat \<Rightarrow> float" where
  "round_float s n d =
     (if n = 0 then Finite s 0 1
      else case nearest_double n d of
             None \<Rightarrow> Infinity s
           | Some (n', d') \<Rightarrow> Finite s n' d')"

fun is_zero :: "float \<Rightarrow> bool" where
  "is_zero (Finite s n d) = (n = 0)"
| "is_zero _ = False"

text \<open>\<^verbatim>\<open>x * y\<close> on floats: no exception, whatever the operands.\<close>

fun fmul :: "float \<Rightarrow> float \<Rightarrow> float" where
  "fmul NaN y = NaN"
| "fmul x NaN = NaN"
| "fmul (Infinity s) (Infinity t) = Infinity (s \<noteq> t)"
| "fmul (Infinity s) (Finite t m e) = (if m = 0 then NaN else Infinity (s \<noteq> t))"
| "fmul (Finite s n d) (Infinity t) = (if n = 0 then NaN else Infinity (s \<noteq> t))"
| "fmul (Finite s n d) (Finite t m e) = round_float (s \<noteq> t) (n * m) (d * e)"

text \<open>
  \<^verbatim>\<open>x + y\<close> on floats: no exception. An exact sum of zero is \<open>+0\<close>, unless both operands
  are negative (then both are \<open>-0\<close>).
\<close>

fun fadd :: "float \<Rightarrow> float \<Rightarrow> float" where
  "fadd NaN y = NaN"
| "fadd x NaN = NaN"
| "fadd (Infinity s) (Infinity t) = (if s = t then Infinity s else NaN)"
| "fadd (Infinity s) (Finite t m e) = Infinity s"
| "fadd (Finite s n d) (Infinity t) = Infinity t"
| "fadd (Finite s n d) (Finite t m e) =
     (let z = (if s then - int n else int n) * int e + (if t then - int m else int m) * int d
      in if z = 0 then Finite (s \<and> t) 0 1
         else round_float (z < 0) (nat \<bar>z\<bar>) (d * e))"

text \<open>\<^verbatim>\<open>x / y\<close> on floats, for a divisor that is not zero.\<close>

fun fdiv :: "float \<Rightarrow> float \<Rightarrow> float" where
  "fdiv NaN y = NaN"
| "fdiv x NaN = NaN"
| "fdiv (Infinity s) (Infinity t) = NaN"
| "fdiv (Infinity s) (Finite t m e) = Infinity (s \<noteq> t)"
| "fdiv (Finite s n d) (Infinity t) = Finite (s \<noteq> t) 0 1"
| "fdiv (Finite s n d) (Finite t m e) = round_float (s \<noteq> t) (n * e) (d * m)"

text \<open>
  The float of an integer, as arithmetic between an integer and a float first takes it:
  \<^verbatim>\<open>OverflowError\<close> when the integer is too large for a float.
\<close>

definition float_of_int :: "int \<Rightarrow> error + float" where
  "float_of_int i =
     (if i = 0 then Inr (Finite False 0 1)
      else case nearest_double (nat \<bar>i\<bar>) 1 of
             None \<Rightarrow> Inl OverflowError
           | Some (n, d) \<Rightarrow> Inr (Finite (i < 0) n d))"

text \<open>
  \<^verbatim>\<open>a / b\<close> on integers: \<^verbatim>\<open>ZeroDivisionError\<close> when \<open>b\<close> is zero, \<^verbatim>\<open>OverflowError\<close> when the
  quotient is too large for a float; a zero numerator gives a zero with the sign of \<open>b\<close>.
  The quotient is rounded once, from the exact fraction.
\<close>

definition truediv :: "int \<Rightarrow> int \<Rightarrow> error + float" where
  "truediv a b =
     (if b = 0 then Inl ZeroDivisionError
      else let negate = ((a < 0) \<noteq> (b < 0))
           in if a = 0 then Inr (Finite negate 0 1)
              else case nearest_double (nat \<bar>a\<bar>) (nat \<bar>b\<bar>) of
                     None \<Rightarrow> Inl OverflowError
                   | Some (n, d) \<Rightarrow> Inr (Finite negate n d))"

text \<open>
  \<^verbatim>\<open>format(x, ".2f")\<close>: the sign, the integer part, a point and two digits, from the exact
  value of the float; an infinity and the not-a-number print as words.
\<close>

fun format_2f :: "float \<Rightarrow> string" where
  "format_2f (Finite s n d) =
     (let c = round_half_even (n * 100) d
      in (if s then ''-'' else '''') @ str_nat (c div 100) @ ''.''
         @ [digit (c mod 100 div 10), digit (c mod 10)])"
| "format_2f (Infinity s) = (if s then ''-inf'' else ''inf'')"
| "format_2f NaN = ''nan''"

section \<open>Numbers\<close>

text \<open>
  The numbers the running sums can be. Arithmetic on two integers is exact; as soon as one
  operand is a float the other is turned into a float, and the result is a float.
\<close>

datatype num = NInt int | NFloat float

fun to_float :: "num \<Rightarrow> error + float" where
  "to_float (NInt i) = float_of_int i"
| "to_float (NFloat x) = Inr x"

definition float_op :: "(float \<Rightarrow> float \<Rightarrow> float) \<Rightarrow> num \<Rightarrow> num \<Rightarrow> error + num" where
  "float_op f a b =
     (case to_float a of Inl e \<Rightarrow> Inl e | Inr x \<Rightarrow>
     (case to_float b of Inl e \<Rightarrow> Inl e | Inr y \<Rightarrow> Inr (NFloat (f x y))))"

fun num_mul :: "num \<Rightarrow> num \<Rightarrow> error + num" where
  "num_mul (NInt a) (NInt b) = Inr (NInt (a * b))"
| "num_mul a b = float_op fmul a b"

fun num_add :: "num \<Rightarrow> num \<Rightarrow> error + num" where
  "num_add (NInt a) (NInt b) = Inr (NInt (a + b))"
| "num_add a b = float_op fadd a b"

text \<open>
  \<^verbatim>\<open>a / b\<close>: with a float among the operands both are floats first (so an integer too large
  raises \<^verbatim>\<open>OverflowError\<close> even over a zero), then a zero divisor raises
  \<^verbatim>\<open>ZeroDivisionError\<close>.
\<close>

fun num_truediv :: "num \<Rightarrow> num \<Rightarrow> error + float" where
  "num_truediv (NInt a) (NInt b) = truediv a b"
| "num_truediv a b =
     (case to_float a of Inl e \<Rightarrow> Inl e | Inr x \<Rightarrow>
     (case to_float b of Inl e \<Rightarrow> Inl e | Inr y \<Rightarrow>
        if is_zero y then Inl ZeroDivisionError else Inr (fdiv x y)))"

text \<open>\<^verbatim>\<open>count/total_elements*100\<close> printed by \<^verbatim>\<open>:.2f\<close>; the integer 100 is the float 100.\<close>

definition percentage :: "num \<Rightarrow> num \<Rightarrow> error + string" where
  "percentage count total_elements =
     (case num_truediv count total_elements of
        Inl e \<Rightarrow> Inl e
      | Inr q \<Rightarrow> Inr (format_2f (fmul q (Finite False 100 1))))"

text \<open>\<^verbatim>\<open>str(x)\<close> of a float.\<close>

fun float_repr :: "runtime \<Rightarrow> float \<Rightarrow> string" where
  "float_repr rt (Finite s n d) = finite_repr rt s n d"
| "float_repr rt (Infinity s) = (if s then ''-inf'' else ''inf'')"
| "float_repr rt NaN = ''nan''"

text \<open>\<^verbatim>\<open>{count}\<close> in an f-string.\<close>

fun str_num :: "runtime \<Rightarrow> num \<Rightarrow> error + string" where
  "str_num rt (NInt i) = format_int i"
| "str_num rt (NFloat x) = Inr (float_repr rt x)"

fun num_value :: "num \<Rightarrow> pyval" where
  "num_value (NInt i) = PyInt i"
| "num_value (NFloat x) = PyFloat x"

section \<open>The operations of the interpreter the loop uses\<close>

text \<open>\<^verbatim>\<open>value[k]\<close> for a text \<open>k\<close>: only a dictionary can be indexed by a text.\<close>

definition subscript :: "pyval \<Rightarrow> string \<Rightarrow> error + pyval" where
  "subscript v k =
     (case v of
        PyDict d \<Rightarrow> (case map_of d k of None \<Rightarrow> Inl (KeyError k) | Some x \<Rightarrow> Inr x)
      | _ \<Rightarrow> Inl TypeError)"

text \<open>\<^verbatim>\<open>header.items()\<close>: only a dictionary has the method.\<close>

definition items :: "pyval \<Rightarrow> error + (string \<times> pyval) list" where
  "items v = (case v of PyDict d \<Rightarrow> Inr d | _ \<Rightarrow> Inl AttributeError)"

text \<open>
  \<^verbatim>\<open>for dim in shape\<close>: a list gives its elements, a text its characters, a dictionary its
  keys; nothing else can be iterated. (The model gives the bytes of a text, one or more for
  each character: the script cannot tell, any item of a text makes the product raise.)
\<close>

definition iter :: "pyval \<Rightarrow> error + pyval list" where
  "iter v =
     (case v of
        PyList xs \<Rightarrow> Inr xs
      | PyStr s \<Rightarrow> Inr (map (\<lambda>c. PyStr [c]) s)
      | PyDict d \<Rightarrow> Inr (map (\<lambda>(k, x). PyStr k) d)
      | _ \<Rightarrow> Inl TypeError)"

text \<open>The number a value counts as in arithmetic: \<^verbatim>\<open>True\<close> is 1 and \<^verbatim>\<open>False\<close> is 0.\<close>

fun as_num :: "pyval \<Rightarrow> num option" where
  "as_num (PyInt i) = Some (NInt i)"
| "as_num (PyBool b) = Some (NInt (if b then 1 else 0))"
| "as_num (PyFloat x) = Some (NFloat x)"
| "as_num _ = None"

text \<open>
  A sequence repeated \<open>c\<close> times. The count must fit a signed 64-bit number, whatever its
  sign; a count of zero or less gives the empty sequence; the length of the result must fit
  too (a text raises \<^verbatim>\<open>OverflowError\<close> there, a list \<^verbatim>\<open>MemoryError\<close>), and find room.
\<close>

definition seq_repeat :: "runtime \<Rightarrow> bool \<Rightarrow> int \<Rightarrow> 'a list \<Rightarrow> error + 'a list" where
  "seq_repeat rt text c xs =
     (if c < - (2 ^ 63) \<or> 2 ^ 63 \<le> c then Inl OverflowError
      else if c \<le> 0 then Inr []
      else if 2 ^ 63 - 1 < int (length xs) * c
        then Inl (if text then OverflowError else MemoryError)
      else if no_room rt (length xs * nat c) then Inl MemoryError
      else Inr (concat (replicate (nat c) xs)))"

text \<open>A number times a value that is not a number: only an integer repeats a sequence.\<close>

definition times_seq :: "runtime \<Rightarrow> num \<Rightarrow> pyval \<Rightarrow> error + pyval" where
  "times_seq rt x v =
     (case x of
        NFloat y \<Rightarrow> Inl TypeError
      | NInt c \<Rightarrow>
          (case v of
             PyStr s \<Rightarrow> map_sum id PyStr (seq_repeat rt True c s)
           | PyList l \<Rightarrow> map_sum id PyList (seq_repeat rt False c l)
           | _ \<Rightarrow> Inl TypeError))"

text \<open>
  \<^verbatim>\<open>a * b\<close>: two numbers multiply; an integer and a text or a list repeat the sequence;
  every other pair is a \<^verbatim>\<open>TypeError\<close>.
\<close>

definition py_mul :: "runtime \<Rightarrow> pyval \<Rightarrow> pyval \<Rightarrow> error + pyval" where
  "py_mul rt a b =
     (case (as_num a, as_num b) of
        (Some x, Some y) \<Rightarrow> map_sum id num_value (num_mul x y)
      | (Some x, None) \<Rightarrow> times_seq rt x b
      | (None, Some y) \<Rightarrow> times_seq rt y a
      | (None, None) \<Rightarrow> Inl TypeError)"

text \<open>
  \<^verbatim>\<open>c + v\<close> with a number on the left, as in \<^verbatim>\<open>dtypes.get(dtype, 0) + num_elements\<close> and
  \<^verbatim>\<open>total_elements += num_elements\<close>: both running sums start at the integer 0 and stay
  numbers, since a number plus anything else is a \<^verbatim>\<open>TypeError\<close>.
\<close>

definition add_num :: "num \<Rightarrow> pyval \<Rightarrow> error + num" where
  "add_num c v = (case as_num v of Some y \<Rightarrow> num_add c y | None \<Rightarrow> Inl TypeError)"

text \<open>
  The keys of \<^verbatim>\<open>dtypes\<close>. A list or a dictionary cannot be hashed. A key is looked up by
  identity, then by \<^verbatim>\<open>==\<close>. Numbers are equal when their exact values are, \<^verbatim>\<open>True\<close> being 1
  and \<^verbatim>\<open>False\<close> 0. The not-a-number differs from itself, but \<^verbatim>\<open>json.loads\<close> gives one and
  the same object for every \<^verbatim>\<open>NaN\<close> of a text, so as a key it is found again.
\<close>

datatype key = KNone | KBool bool | KInt int | KFloat float | KStr string

definition hash_key :: "pyval \<Rightarrow> error + key" where
  "hash_key v =
     (case v of
        PyNone \<Rightarrow> Inr KNone
      | PyBool b \<Rightarrow> Inr (KBool b)
      | PyInt i \<Rightarrow> Inr (KInt i)
      | PyFloat x \<Rightarrow> Inr (KFloat x)
      | PyStr s \<Rightarrow> Inr (KStr s)
      | _ \<Rightarrow> Inl TypeError)"

text \<open>The exact value of a key that is a finite number, as a fraction.\<close>

fun key_value :: "key \<Rightarrow> (int \<times> nat) option" where
  "key_value (KInt i) = Some (i, 1)"
| "key_value (KBool b) = Some (if b then 1 else 0, 1)"
| "key_value (KFloat (Finite s n d)) = Some (if s then - int n else int n, d)"
| "key_value _ = None"

definition key_eq :: "key \<Rightarrow> key \<Rightarrow> bool" where
  "key_eq a b =
     (case (key_value a, key_value b) of
        (Some (p, q), Some (p', q')) \<Rightarrow> p * int q' = p' * int q
      | (None, None) \<Rightarrow> a = b
      | _ \<Rightarrow> False)"

text \<open>\<^verbatim>\<open>{dtype}\<close> in an f-string.\<close>

fun str_key :: "runtime \<Rightarrow> key \<Rightarrow> error + string" where
  "str_key rt KNone = Inr ''None''"
| "str_key rt (KBool b) = Inr (if b then ''True'' else ''False'')"
| "str_key rt (KInt i) = format_int i"
| "str_key rt (KFloat x) = Inr (float_repr rt x)"
| "str_key rt (KStr s) = Inr s"

type_synonym buckets = "(key \<times> num) list"

text \<open>\<^verbatim>\<open>dtypes.get(k, c0)\<close>.\<close>

fun dict_get :: "(key \<times> 'v) list \<Rightarrow> key \<Rightarrow> 'v \<Rightarrow> 'v" where
  "dict_get [] k c0 = c0"
| "dict_get ((k', c) # d) k c0 = (if key_eq k' k then c else dict_get d k c0)"

text \<open>
  \<^verbatim>\<open>dtypes[k] = c\<close>: a key already there keeps its place (and the key object first stored),
  a new key goes last.
\<close>

fun dict_set :: "(key \<times> 'v) list \<Rightarrow> key \<Rightarrow> 'v \<Rightarrow> (key \<times> 'v) list" where
  "dict_set [] k c = [(k, c)]"
| "dict_set ((k', c') # d) k c =
     (if key_eq k' k then (k', c) # d else (k', c') # dict_set d k c)"

text \<open>\<^verbatim>\<open>k in dtypes\<close>.\<close>

fun has_key :: "(key \<times> 'v) list \<Rightarrow> key \<Rightarrow> bool" where
  "has_key [] k = False"
| "has_key ((k', c) # d) k = (key_eq k' k \<or> has_key d k)"

section \<open>The aggregation loop\<close>

text \<open>
  \<^verbatim>\<open>num_elements = 1; for dim in shape: num_elements *= dim\<close>, from the current product on.
\<close>

fun product :: "runtime \<Rightarrow> pyval \<Rightarrow> pyval list \<Rightarrow> error + pyval" where
  "product rt num_elements [] = Inr num_elements"
| "product rt num_elements (dim # dims) =
     (case py_mul rt num_elements dim of
        Inl e \<Rightarrow> Inl e
      | Inr n \<Rightarrow> product rt n dims)"

text \<open>The body of the loop for an entry that is not skipped (source lines 30 to 39).\<close>

definition tally :: "runtime \<Rightarrow> pyval \<Rightarrow> buckets \<times> num \<Rightarrow> error + (buckets \<times> num)" where
  "tally rt v st =
     (case subscript v ''dtype'' of Inl e \<Rightarrow> Inl e | Inr dtype \<Rightarrow>
     (case subscript v ''shape'' of Inl e \<Rightarrow> Inl e | Inr shape \<Rightarrow>
     (case iter shape of Inl e \<Rightarrow> Inl e | Inr dims \<Rightarrow>
     (case product rt (PyInt 1) dims of Inl e \<Rightarrow> Inl e | Inr num_elements \<Rightarrow>
     (case hash_key dtype of Inl e \<Rightarrow> Inl e | Inr k \<Rightarrow>
     (case add_num (dict_get (fst st) k (NInt 0)) num_elements of Inl e \<Rightarrow> Inl e | Inr c \<Rightarrow>
     (case add_num (snd st) num_elements of Inl e \<Rightarrow> Inl e | Inr t \<Rightarrow>
      Inr (dict_set (fst st) k c, t))))))))"

text \<open>
  \<^verbatim>\<open>for key, value in header.items()\<close> (source lines 26 to 39): the state is \<^verbatim>\<open>dtypes\<close> and
  \<^verbatim>\<open>total_elements\<close>; the first exception ends the loop.
\<close>

fun aggregate ::
  "runtime \<Rightarrow> (string \<times> pyval) list \<Rightarrow> buckets \<times> num \<Rightarrow> error + (buckets \<times> num)" where
  "aggregate rt [] st = Inr st"
| "aggregate rt ((k, v) # rest) st =
     (if k = ''__metadata__'' then aggregate rt rest st
      else case tally rt v st of
             Inl e \<Rightarrow> Inl e
           | Inr st' \<Rightarrow> aggregate rt rest st')"

section \<open>The report and the whole script\<close>

text \<open>
  The text of one row (source line 43). The f-string formats \<^verbatim>\<open>{dtype}\<close>, then
  \<^verbatim>\<open>{count}\<close>, and only then evaluates and formats the percentage, so the first of them to
  raise decides the exception.
\<close>

definition row :: "runtime \<Rightarrow> key \<Rightarrow> num \<Rightarrow> num \<Rightarrow> error + string" where
  "row rt dtype count total_elements =
     (case str_key rt dtype of Inl e \<Rightarrow> Inl e | Inr dtype_text \<Rightarrow>
     (case str_num rt count of Inl e \<Rightarrow> Inl e | Inr count_text \<Rightarrow>
     (case percentage count total_elements of Inl e \<Rightarrow> Inl e | Inr p \<Rightarrow>
      Inr (dtype_text @ '': '' @ count_text @ '' elements ('' @ p @ ''%)''))))"

text \<open>
  \<^verbatim>\<open>for dtype, count in dtypes.items(): print(...)\<close> (source lines 42 and 43). The text of a
  row is built before it is printed, so a row that raises prints nothing.
\<close>

fun report :: "runtime \<Rightarrow> buckets \<Rightarrow> num \<Rightarrow> string list \<Rightarrow> string list \<times> ending" where
  "report rt [] total_elements out = (out, Finished)"
| "report rt ((dtype, count) # rest) total_elements out =
     (case row rt dtype count total_elements of
        Inl e \<Rightarrow> (out, Uncaught e)
      | Inr line \<Rightarrow> report rt rest total_elements (out @ [line]))"

text \<open>Source lines 21 to 43: what happens once the header is parsed.\<close>

definition analyze :: "runtime \<Rightarrow> pyval \<Rightarrow> string list \<Rightarrow> string list \<times> ending" where
  "analyze rt header out =
     (let out = out @ [CHR 0x0A # ''Tensor analysis:'']
      in case items header of
           Inl e \<Rightarrow> (out, Uncaught e)
         | Inr entries \<Rightarrow>
             (case aggregate rt entries ([], NInt 0) of
                Inl e \<Rightarrow> (out, Uncaught e)
              | Inr (dtypes, total_elements) \<Rightarrow>
                  report rt dtypes total_elements
                    (out @ [CHR 0x0A # ''Data Type Distribution (by number of elements):''])))"

text \<open>
  The script. \<open>loads\<close> is \<^verbatim>\<open>json.loads\<close>, a function of the standard library: it is a
  parameter, returning the parsed value or the exception it raises. \<open>fs\<close> gives the content
  of the files that can be opened. An exception of a read ends the run like any other.
\<close>

definition main ::
  "runtime \<Rightarrow> (byte list \<Rightarrow> error + pyval) \<Rightarrow> (string \<Rightarrow> byte list option) \<Rightarrow> run" where
  "main rt loads fs =
     (case fs filename of
        None \<Rightarrow> \<lparr>stdout = [], reads = [], ending = Uncaught FileNotFoundError\<rparr>
      | Some bs \<Rightarrow>
          (let (r, f) = read rt (open_rb bs) 8
           in case r of
                Inl e \<Rightarrow> \<lparr>stdout = [], reads = requests f, ending = Uncaught e\<rparr>
              | Inr header_size_bytes \<Rightarrow>
                  if length header_size_bytes \<noteq> 8
                  then \<lparr>stdout = [''File too short''], reads = requests f,
                        ending = SystemExit 1\<rparr>
                  else
                    (let header_size = unpack_Q header_size_bytes;
                         out = [''Header size: '' @ str_nat header_size];
                         (r, f) = read rt f header_size
                     in case r of
                          Inl e \<Rightarrow> \<lparr>stdout = out, reads = requests f, ending = Uncaught e\<rparr>
                        | Inr header_json \<Rightarrow>
                            (case loads header_json of
                               Inl e \<Rightarrow>
                                 \<lparr>stdout = out, reads = requests f, ending = Uncaught e\<rparr>
                             | Inr header \<Rightarrow>
                                 (let (out, fin) = analyze rt header out
                                  in \<lparr>stdout = out, reads = requests f, ending = fin\<rparr>)))))"

section \<open>Notions the statements use\<close>

text \<open>The entries the loop does not skip, in the order of the header.\<close>

definition tensors :: "(string \<times> pyval) list \<Rightarrow> (string \<times> pyval) list" where
  "tensors entries = filter (\<lambda>(k, v). k \<noteq> ''__metadata__'') entries"

text \<open>
  The descriptor of a well-typed entry: a dictionary whose \<^verbatim>\<open>dtype\<close> is a text and whose
  \<^verbatim>\<open>shape\<close> is a list of integers. Other fields of the entry are free.
\<close>

fun ints :: "pyval list \<Rightarrow> int list option" where
  "ints [] = Some []"
| "ints (PyInt i # xs) = map_option ((#) i) (ints xs)"
| "ints (_ # xs) = None"

definition descriptor :: "pyval \<Rightarrow> (string \<times> int list) option" where
  "descriptor v =
     (case v of
        PyDict d \<Rightarrow>
          (case map_of d ''dtype'' of
             Some (PyStr s) \<Rightarrow>
               (case map_of d ''shape'' of
                  Some (PyList xs) \<Rightarrow> map_option (Pair s) (ints xs)
                | _ \<Rightarrow> None)
           | _ \<Rightarrow> None)
      | _ \<Rightarrow> None)"

text \<open>The product of the dimensions of an entry; the empty product is 1.\<close>

definition elements :: "pyval \<Rightarrow> int" where
  "elements v = (case descriptor v of Some (s, dims) \<Rightarrow> prod_list dims | None \<Rightarrow> 0)"

text \<open>
  A well-formed header: every entry that is not the metadata has a text dtype and a list of
  non-negative integers as shape.
\<close>

definition well_formed_entry :: "pyval \<Rightarrow> bool" where
  "well_formed_entry v =
     (case descriptor v of Some (s, dims) \<Rightarrow> list_all (\<lambda>i. 0 \<le> i) dims | None \<Rightarrow> False)"

definition well_formed :: "(string \<times> pyval) list \<Rightarrow> bool" where
  "well_formed entries = list_all (\<lambda>(k, v). well_formed_entry v) (tensors entries)"


text \<open>Buckets whose counts are all integers, as \<^verbatim>\<open>dtypes\<close> has them.\<close>

definition int_buckets :: "(key \<times> int) list \<Rightarrow> buckets" where
  "int_buckets d = map (\<lambda>(k, c). (k, NInt c)) d"

text \<open>The key under which an entry is counted, when its dtype can be one.\<close>

definition dtype_key :: "pyval \<Rightarrow> key option" where
  "dtype_key v =
     (case subscript v ''dtype'' of
        Inl e \<Rightarrow> None
      | Inr x \<Rightarrow> (case hash_key x of Inl e \<Rightarrow> None | Inr k \<Rightarrow> Some k))"

text \<open>The keys of the scan: the dtype of each entry that is not skipped, in order.\<close>

definition scanned_keys :: "(string \<times> pyval) list \<Rightarrow> key list" where
  "scanned_keys entries = List.map_filter (\<lambda>(k, v). dtype_key v) (tensors entries)"

text \<open>
  First-seen order: each key at its first place in the scan, later keys equal to it dropped.
\<close>

fun first_seen :: "key list \<Rightarrow> key list" where
  "first_seen [] = []"
| "first_seen (k # ks) = k # first_seen (filter (\<lambda>k'. \<not> key_eq k k') ks)"

text \<open>An entry has a field when it is a dictionary with that key.\<close>

definition has_field :: "pyval \<Rightarrow> string \<Rightarrow> bool" where
  "has_field v k = (case v of PyDict d \<Rightarrow> k \<in> set (map fst d) | _ \<Rightarrow> False)"

text \<open>The three lines every run that reaches the report starts with.\<close>

definition header_size_line :: "byte list \<Rightarrow> string" where
  "header_size_line bs = ''Header size: '' @ str_nat (unpack_Q (take 8 bs))"

definition tensor_analysis_line :: string where
  "tensor_analysis_line = CHR 0x0A # ''Tensor analysis:''"

definition distribution_line :: string where
  "distribution_line = CHR 0x0A # ''Data Type Distribution (by number of elements):''"

text \<open>The bytes \<^verbatim>\<open>json.loads\<close> is given: the \<open>H\<close> bytes after the prefix, or those left.\<close>

definition header_json :: "byte list \<Rightarrow> byte list" where
  "header_json bs = take (unpack_Q (take 8 bs)) (drop 8 bs)"

text \<open>A total of zero: the integer 0, or a float zero of either sign.\<close>

fun num_is_zero :: "num \<Rightarrow> bool" where
  "num_is_zero (NInt i) = (i = 0)"
| "num_is_zero (NFloat x) = is_zero x"

text \<open>A bucket whose dtype or whose count is an integer \<^verbatim>\<open>str\<close> refuses to print.\<close>

fun unprintable :: "key \<times> num \<Rightarrow> bool" where
  "unprintable (KInt i, NInt c) = (too_long i \<or> too_long c)"
| "unprintable (KInt i, NFloat x) = too_long i"
| "unprintable (k, NInt c) = too_long c"
| "unprintable (k, NFloat x) = False"

text \<open>An integer count too large for a float, under a total that is a float.\<close>

fun unconvertible :: "num \<Rightarrow> num \<Rightarrow> bool" where
  "unconvertible (NInt c) (NFloat t) = (float_of_int c = Inl OverflowError)"
| "unconvertible count total_elements = False"

text \<open>
  A number printed with exactly two decimals: an optional minus sign, one digit or more, a
  point and two digits.
\<close>

definition is_digit :: "char \<Rightarrow> bool" where
  "is_digit c = (c \<in> set ''0123456789'')"

definition unsigned_two_decimals :: "string \<Rightarrow> bool" where
  "unsigned_two_decimals p =
     (case rev p of
        b # a # c # ip \<Rightarrow>
          is_digit b \<and> is_digit a \<and> c = CHR ''.'' \<and> ip \<noteq> [] \<and> list_all is_digit ip
      | _ \<Rightarrow> False)"

definition two_decimals :: "string \<Rightarrow> bool" where
  "two_decimals p =
     (case p of
        c # t \<Rightarrow> if c = CHR ''-'' then unsigned_two_decimals t else unsigned_two_decimals p
      | [] \<Rightarrow> False)"

section \<open>JSON texts\<close>

text \<open>
  The grammar of RFC 8259, on the bytes of a text: what the specification calls valid JSON.
  Each function takes the bytes left and gives those left after what it recognises, or
  \<open>None\<close>. Inside a string the bytes of a character beyond ASCII are taken one by one, so a
  string whose bytes are not UTF-8 is accepted as well; nothing else is.
\<close>

definition is_ws :: "byte \<Rightarrow> bool" where
  "is_ws b = (b = 0x20 \<or> b = 0x09 \<or> b = 0x0A \<or> b = 0x0D)"

definition skip_ws :: "byte list \<Rightarrow> byte list" where
  "skip_ws bs = dropWhile is_ws bs"

definition is_digit_byte :: "byte \<Rightarrow> bool" where
  "is_digit_byte b = (0x30 \<le> b \<and> b \<le> 0x39)"

definition is_hex_byte :: "byte \<Rightarrow> bool" where
  "is_hex_byte b =
     (is_digit_byte b \<or> (0x41 \<le> b \<and> b \<le> 0x46) \<or> (0x61 \<le> b \<and> b \<le> 0x66))"

text \<open>
  A string, after its opening quote: up to the closing quote; a backslash is followed by one
  of \<^verbatim>\<open>" \ / b f n r t\<close> or by \<^verbatim>\<open>u\<close> and four hexadecimal digits; no control character.
\<close>

fun json_string :: "byte list \<Rightarrow> byte list option" where
  "json_string [] = None"
| "json_string (b # bs) =
     (if b = 0x22 then Some bs
      else if b = 0x5C then
        (case bs of
           [] \<Rightarrow> None
         | c # cs \<Rightarrow>
             if c \<in> {0x22, 0x5C, 0x2F, 0x62, 0x66, 0x6E, 0x72, 0x74} then json_string cs
             else if c = 0x75 \<and> 4 \<le> length cs \<and> list_all is_hex_byte (take 4 cs)
               then json_string (drop 4 cs)
             else None)
      else if b < 0x20 then None
      else json_string bs)"

text \<open>One digit or more.\<close>

definition json_digits :: "byte list \<Rightarrow> byte list option" where
  "json_digits bs =
     (case bs of
        b # r \<Rightarrow> if is_digit_byte b then Some (dropWhile is_digit_byte r) else None
      | [] \<Rightarrow> None)"

text \<open>
  A number: an optional minus sign; \<^verbatim>\<open>0\<close>, or a digit from 1 to 9 and more digits; an optional
  fraction, a point and digits; an optional exponent, \<^verbatim>\<open>e\<close> or \<^verbatim>\<open>E\<close>, an optional sign and
  digits.
\<close>

definition json_exponent :: "byte list \<Rightarrow> byte list option" where
  "json_exponent bs =
     (case bs of
        b # r \<Rightarrow>
          if b = 0x65 \<or> b = 0x45
          then (case r of
                  c # r' \<Rightarrow> if c = 0x2B \<or> c = 0x2D then json_digits r' else json_digits r
                | [] \<Rightarrow> None)
          else Some bs
      | [] \<Rightarrow> Some bs)"

definition json_fraction :: "byte list \<Rightarrow> byte list option" where
  "json_fraction bs =
     (case bs of
        b # r \<Rightarrow>
          if b = 0x2E
          then (case json_digits r of None \<Rightarrow> None | Some r' \<Rightarrow> json_exponent r')
          else json_exponent bs
      | [] \<Rightarrow> Some bs)"

definition json_unsigned :: "byte list \<Rightarrow> byte list option" where
  "json_unsigned bs =
     (case bs of
        b # r \<Rightarrow>
          if b = 0x30 then json_fraction r
          else (case json_digits bs of None \<Rightarrow> None | Some r' \<Rightarrow> json_fraction r')
      | [] \<Rightarrow> None)"

definition json_number :: "byte list \<Rightarrow> byte list option" where
  "json_number bs =
     (case bs of
        b # r \<Rightarrow> if b = 0x2D then json_unsigned r else json_unsigned bs
      | [] \<Rightarrow> None)"

text \<open>The words \<^verbatim>\<open>true\<close>, \<^verbatim>\<open>false\<close> and \<^verbatim>\<open>null\<close>.\<close>

definition json_word :: "byte list \<Rightarrow> byte list option" where
  "json_word bs =
     (if take 4 bs = [0x74, 0x72, 0x75, 0x65] then Some (drop 4 bs)
      else if take 5 bs = [0x66, 0x61, 0x6C, 0x73, 0x65] then Some (drop 5 bs)
      else if take 4 bs = [0x6E, 0x75, 0x6C, 0x6C] then Some (drop 4 bs)
      else None)"

text \<open>
  A value: a string, an object, an array, a word or a number, after any white space.
  \<open>json_elements\<close> takes the values of an array once \<^verbatim>\<open>[\<close> is read and the array is not
  empty, \<open>json_members\<close> the members of an object likewise. The first argument bounds the
  depth of the calls; a call that takes no byte is followed by one that does, so twice the
  length of the text is enough.
\<close>

fun json_value :: "nat \<Rightarrow> byte list \<Rightarrow> byte list option"
  and json_elements :: "nat \<Rightarrow> byte list \<Rightarrow> byte list option"
  and json_members :: "nat \<Rightarrow> byte list \<Rightarrow> byte list option" where
  "json_value 0 bs = None"
| "json_value (Suc n) bs =
     (case skip_ws bs of
        [] \<Rightarrow> None
      | b # r \<Rightarrow>
          if b = 0x22 then json_string r
          else if b = 0x7B then
            (case skip_ws r of
               [] \<Rightarrow> None
             | c # r' \<Rightarrow> if c = 0x7D then Some r' else json_members n r)
          else if b = 0x5B then
            (case skip_ws r of
               [] \<Rightarrow> None
             | c # r' \<Rightarrow> if c = 0x5D then Some r' else json_elements n r)
          else if b = 0x74 \<or> b = 0x66 \<or> b = 0x6E then json_word (b # r)
          else json_number (b # r))"
| "json_elements 0 bs = None"
| "json_elements (Suc n) bs =
     (case json_value n bs of
        None \<Rightarrow> None
      | Some r \<Rightarrow>
          (case skip_ws r of
             [] \<Rightarrow> None
           | c # r' \<Rightarrow>
               if c = 0x2C then json_elements n r'
               else if c = 0x5D then Some r'
               else None))"
| "json_members 0 bs = None"
| "json_members (Suc n) bs =
     (case skip_ws bs of
        [] \<Rightarrow> None
      | q # r \<Rightarrow>
          if q \<noteq> 0x22 then None
          else (case json_string r of
                  None \<Rightarrow> None
                | Some r1 \<Rightarrow>
                    (case skip_ws r1 of
                       [] \<Rightarrow> None
                     | c # r2 \<Rightarrow>
                         if c \<noteq> 0x3A then None
                         else (case json_value n r2 of
                                 None \<Rightarrow> None
                               | Some r3 \<Rightarrow>
                                   (case skip_ws r3 of
                                      [] \<Rightarrow> None
                                    | d # r4 \<Rightarrow>
                                        if d = 0x2C then json_members n r4
                                        else if d = 0x7D then Some r4
                                        else None)))))"

text \<open>A JSON text is one value, with nothing but white space after it.\<close>

definition valid_json :: "byte list \<Rightarrow> bool" where
  "valid_json bs =
     (case json_value (2 * length bs + 2) bs of
        None \<Rightarrow> False
      | Some r \<Rightarrow> skip_ws r = [])"

section \<open>The machine of the examples\<close>

text \<open>
  The examples below run on a machine with room for objects of \<open>2 ^ 33\<close> bytes. None of them
  prints a finite float, so the text the machine gives for one is never used.
\<close>

definition example_runtime :: runtime where
  "example_runtime = \<lparr>memory = 2 ^ 33, finite_repr = (\<lambda>s n d. [])\<rparr>"

section \<open>Reading the file\<close>

text \<open>The equations that evaluate a percentage on given numbers.\<close>

lemmas percentage_eval =
  percentage_def truediv_def nearest_double_def ilog2_def bitlen.simps Let_def
  round_half_even_def round_float_def str_int_def str_nat.simps digit_def

lemma read_error_8: "read_error rt 8 = None"
  by (simp add: read_error_def no_room_def)

lemma read_open_rb:
  "read rt (open_rb bs) 8
    = (Inr (take 8 bs), \<lparr>content = bs, pos = length (take 8 bs), requests = [8]\<rparr>)"
  by (simp add: read_def open_rb_def Let_def read_error_8)

lemma main_long:
  assumes "fs filename = Some bs" and "8 \<le> length bs"
  shows "main rt loads fs =
    (case read_error rt (unpack_Q (take 8 bs)) of
       Some e \<Rightarrow> \<lparr>stdout = [header_size_line bs],
                  reads = [8, unpack_Q (take 8 bs)], ending = Uncaught e\<rparr>
     | None \<Rightarrow>
        (case loads (header_json bs) of
           Inl e \<Rightarrow> \<lparr>stdout = [header_size_line bs],
                     reads = [8, unpack_Q (take 8 bs)], ending = Uncaught e\<rparr>
         | Inr header \<Rightarrow>
             \<lparr>stdout = fst (analyze rt header [header_size_line bs]),
              reads = [8, unpack_Q (take 8 bs)],
              ending = snd (analyze rt header [header_size_line bs])\<rparr>))"
proof -
  have r1: "read rt (open_rb bs) 8
      = (Inr (take 8 bs), \<lparr>content = bs, pos = 8, requests = [8]\<rparr>)"
    using assms(2) by (simp add: read_open_rb)
  have r2: "read rt \<lparr>content = bs, pos = 8, requests = [8]\<rparr> n =
      (case read_error rt n of
         Some e \<Rightarrow> (Inl e, \<lparr>content = bs, pos = 8, requests = [8, n]\<rparr>)
       | None \<Rightarrow> (Inr (take n (drop 8 bs)),
           \<lparr>content = bs, pos = 8 + length (take n (drop 8 bs)), requests = [8, n]\<rparr>))" for n
    by (simp add: read_def Let_def split: option.splits)
  show ?thesis
  proof (cases "read_error rt (unpack_Q (take 8 bs))")
    case (Some e)
    with assms show ?thesis
      by (simp add: main_def r1 r2 Let_def header_size_line_def)
  next
    case None
    with assms show ?thesis
      by (simp add: main_def r1 r2 Let_def header_json_def header_size_line_def
          split: sum.splits prod.splits)
  qed
qed

lemma main_read:
  assumes "fs filename = Some bs" and "8 \<le> length bs"
    and "read_error rt (unpack_Q (take 8 bs)) = None"
  shows "main rt loads fs =
    (case loads (header_json bs) of
       Inl e \<Rightarrow> \<lparr>stdout = [header_size_line bs],
                 reads = [8, unpack_Q (take 8 bs)], ending = Uncaught e\<rparr>
     | Inr header \<Rightarrow>
         \<lparr>stdout = fst (analyze rt header [header_size_line bs]),
          reads = [8, unpack_Q (take 8 bs)],
          ending = snd (analyze rt header [header_size_line bs])\<rparr>)"
  using main_long [of fs bs rt loads, OF assms(1,2)] assms(3) by simp

lemma read_error_small: "n \<le> 2 ^ 33 \<Longrightarrow> read_error example_runtime n = None"
proof -
  assume "n \<le> 2 ^ 33"
  moreover have "(2 :: nat) ^ 33 < 2 ^ 63 - 33" by simp
  ultimately show ?thesis
    by (simp add: read_error_def no_room_def example_runtime_def)
qed

lemma unpack_Q_sum: "unpack_Q bs = (\<Sum>i<length bs. unat (bs ! i) * 256 ^ i)"
proof (induction bs)
  case Nil
  then show ?case by simp
next
  case (Cons b bs)
  then show ?case
    by (simp add: sum.lessThan_Suc_shift sum_distrib_left mult_ac del: sum.lessThan_Suc)
qed

lemma unpack_Q_bound: "unpack_Q bs < 256 ^ length bs"
proof (induction bs)
  case Nil
  then show ?case by simp
next
  case (Cons b bs)
  have "unat b < 256" using unsigned_less [of b, where ?'a = nat] by simp
  with Cons show ?case by simp
qed

lemma report_appends: "\<exists>rows. fst (report rt d t out) = out @ rows"
proof (induction rt d t out rule: report.induct)
  case (1 rt t out)
  then show ?case by simp
next
  case (2 rt dtype count rest t out)
  show ?case
  proof (cases "row rt dtype count t")
    case (Inl e)
    then show ?thesis by simp
  next
    case (Inr p)
    with 2 show ?thesis by auto
  qed
qed

lemma analyze_appends:
  "\<exists>rest. fst (analyze rt header out) = out @ tensor_analysis_line # rest"
proof (cases "items header")
  case (Inl e)
  then show ?thesis by (simp add: analyze_def tensor_analysis_line_def)
next
  case (Inr entries)
  show ?thesis
  proof (cases "aggregate rt entries ([], NInt 0)")
    case (Inl e)
    with Inr show ?thesis by (simp add: analyze_def tensor_analysis_line_def)
  next
    case inr: (Inr st)
    obtain dtypes total_elements where st: "st = (dtypes, total_elements)" by (cases st)
    obtain rows where "fst (report rt dtypes total_elements
        ((out @ [tensor_analysis_line]) @ [distribution_line]))
        = ((out @ [tensor_analysis_line]) @ [distribution_line]) @ rows"
      using report_appends by blast
    with Inr inr st show ?thesis
      by (simp add: analyze_def tensor_analysis_line_def distribution_line_def)
  qed
qed

lemma analyze_dict:
  "analyze rt (PyDict entries) out
    = (case aggregate rt entries ([], NInt 0) of
         Inl e \<Rightarrow> (out @ [tensor_analysis_line], Uncaught e)
       | Inr (dtypes, total_elements) \<Rightarrow>
           report rt dtypes total_elements (out @ [tensor_analysis_line, distribution_line]))"
  by (simp add: analyze_def items_def tensor_analysis_line_def distribution_line_def
      split: sum.splits)

lemma lines_differ:
  "header_size_line bs \<noteq> tensor_analysis_line" "header_size_line bs \<noteq> distribution_line"
  by (simp_all add: header_size_line_def tensor_analysis_line_def distribution_line_def)

section \<open>The length prefix\<close>

text \<open>
  C3. A file shorter than 8 bytes: the script prints \<^verbatim>\<open>File too short\<close> and nothing else,
  ends through \<^verbatim>\<open>sys.exit(1)\<close>, so with exit status 1, and the only read of the file is
  the first one, of 8 bytes.
\<close>

theorem short_file_exits_1:
  assumes "fs filename = Some bs" and "length bs < 8"
  shows "main rt loads fs
      = \<lparr>stdout = [''File too short''], reads = [8], ending = SystemExit 1\<rparr>
    \<and> exit_status (ending (main rt loads fs)) = 1"
  using assms by (simp add: main_def read_open_rb)

theorem short_file_exits_1_witness:
  "main example_runtime (\<lambda>j. Inr (PyDict [])) [filename \<mapsto> [1, 2, 3, 4]]
     = \<lparr>stdout = [''File too short''], reads = [8], ending = SystemExit 1\<rparr>
   \<and> exit_status (ending (main example_runtime (\<lambda>j. Inr (PyDict []))
        [filename \<mapsto> [1, 2, 3, 4]])) = 1"
  using short_file_exits_1
    [of "[filename \<mapsto> [1, 2, 3, 4]]" "[1, 2, 3, 4]" example_runtime "\<lambda>j. Inr (PyDict [])"]
  by simp

text \<open>
  C5. A file of at least 8 bytes: the header length \<open>H\<close> is the first 8 bytes read as an
  unsigned 64-bit number, least significant byte first, and \<^verbatim>\<open>Header size: H\<close> is the first
  line printed. It is printed before the header is parsed: when the parser raises, the line
  is already there, and it is the whole output.
\<close>

theorem header_size_little_endian:
  assumes "fs filename = Some bs" and "8 \<le> length bs"
  shows "unpack_Q (take 8 bs) = (\<Sum>i<8. unat (bs ! i) * 256 ^ i)
    \<and> unpack_Q (take 8 bs) < 2 ^ 64
    \<and> (\<exists>rest. stdout (main rt loads fs)
          = (''Header size: '' @ str_nat (unpack_Q (take 8 bs))) # rest)
    \<and> (case loads (header_json bs) of
          Inl e \<Rightarrow>
            stdout (main rt loads fs) = [''Header size: '' @ str_nat (unpack_Q (take 8 bs))]
        | Inr header \<Rightarrow> True)"
proof -
  have "unpack_Q (take 8 bs) = (\<Sum>i<8. unat (take 8 bs ! i) * 256 ^ i)"
    using assms(2) by (simp add: unpack_Q_sum)
  then have sum: "unpack_Q (take 8 bs) = (\<Sum>i<8. unat (bs ! i) * 256 ^ i)"
    by simp
  have bound: "unpack_Q (take 8 bs) < 2 ^ 64"
    using unpack_Q_bound [of "take 8 bs"] assms(2) by simp
  note run = main_long [of fs bs rt loads, OF assms]
  have line: "header_size_line bs = ''Header size: '' @ str_nat (unpack_Q (take 8 bs))"
    by (simp add: header_size_line_def)
  have out: "\<exists>rest. stdout (main rt loads fs) = header_size_line bs # rest"
  proof (cases "read_error rt (unpack_Q (take 8 bs))")
    case (Some e)
    then show ?thesis by (simp add: run)
  next
    case None
    show ?thesis
    proof (cases "loads (header_json bs)")
      case (Inl e)
      with None show ?thesis by (simp add: run)
    next
      case (Inr header)
      obtain rest where "fst (analyze rt header [header_size_line bs])
          = [header_size_line bs] @ tensor_analysis_line # rest"
        using analyze_appends by blast
      with Inr None show ?thesis by (simp add: run)
    qed
  qed
  have raised: "case loads (header_json bs) of
      Inl e \<Rightarrow> stdout (main rt loads fs) = [header_size_line bs] | Inr header \<Rightarrow> True"
    by (simp add: run split: sum.splits option.splits)
  from sum bound out raised show ?thesis
    unfolding line by blast
qed

text \<open>The file holds the prefix 2 and the text \<^verbatim>\<open>{}\<close>; the parser knows that text only.\<close>

theorem header_size_little_endian_witness:
  "unpack_Q (take 8 [2, 0, 0, 0, 0, 0, 0, 0, 0x7B, 0x7D])
     = (\<Sum>i<8. unat ([2, 0, 0, 0, 0, 0, 0, 0, 0x7B, 0x7D :: byte] ! i) * 256 ^ i)
   \<and> stdout (main example_runtime
        (\<lambda>j. if j = [0x7B, 0x7D] then Inr (PyDict []) else Inl (JSONDecodeError []))
        [filename \<mapsto> [2, 0, 0, 0, 0, 0, 0, 0, 0x7B, 0x7D]])
     = [''Header size: 2'', tensor_analysis_line, distribution_line]"
proof -
  let ?bs = "[2, 0, 0, 0, 0, 0, 0, 0, 0x7B, 0x7D] :: byte list"
  let ?loads = "\<lambda>j :: byte list. if j = [0x7B, 0x7D] then Inr (PyDict []) else Inl (JSONDecodeError [])"
  have "unpack_Q (take 8 ?bs) = (\<Sum>i<8. unat (?bs ! i) * 256 ^ i)"
    using header_size_little_endian [of "[filename \<mapsto> ?bs]" ?bs example_runtime ?loads] by simp
  moreover have "read_error example_runtime (unpack_Q (take 8 ?bs)) = None"
    by (rule read_error_small) simp
  then have "stdout (main example_runtime ?loads [filename \<mapsto> ?bs])
      = [''Header size: 2'', tensor_analysis_line, distribution_line]"
    by (simp add: main_read [of "[filename \<mapsto> ?bs]" ?bs] header_json_def header_size_line_def
        analyze_dict str_nat.simps digit_def)
  ultimately show ?thesis by blast
qed

section \<open>The parse step\<close>

text \<open>
  C8, as the script has it. The script does not look at the header text: it gives the bytes
  to \<^verbatim>\<open>json.loads\<close>. When the header is read and \<^verbatim>\<open>json.loads\<close> raises on its bytes, the run
  ends there with that very exception uncaught: exit status 1, the header-size line is the
  whole output (neither the aggregation nor the report is reached), and no read follows the
  read of the header.
\<close>

theorem parse_error_is_fatal:
  assumes "fs filename = Some bs" and "8 \<le> length bs"
    and "read_error rt (unpack_Q (take 8 bs)) = None"
    and "loads (header_json bs) = Inl e"
  shows "main rt loads fs
      = \<lparr>stdout = [header_size_line bs], reads = [8, unpack_Q (take 8 bs)],
         ending = Uncaught e\<rparr>
    \<and> exit_status (ending (main rt loads fs)) = 1
    \<and> tensor_analysis_line \<notin> set (stdout (main rt loads fs))
    \<and> distribution_line \<notin> set (stdout (main rt loads fs))"
proof -
  have run: "main rt loads fs
      = \<lparr>stdout = [header_size_line bs], reads = [8, unpack_Q (take 8 bs)],
         ending = Uncaught e\<rparr>"
    using main_read [of fs bs rt loads, OF assms(1,2,3)] assms(4) by simp
  with lines_differ [of bs] show ?thesis by simp
qed

text \<open>The file holds the prefix 1 and the text \<^verbatim>\<open>{\<close>, which no parser accepts.\<close>

theorem parse_error_is_fatal_witness:
  "main example_runtime
      (\<lambda>j. if j = [0x7B, 0x7D] then Inr (PyDict [])
            else Inl (JSONDecodeError ''Expecting property name''))
      [filename \<mapsto> [1, 0, 0, 0, 0, 0, 0, 0, 0x7B]]
    = \<lparr>stdout = [''Header size: 1''], reads = [8, 1],
       ending = Uncaught (JSONDecodeError ''Expecting property name'')\<rparr>"
proof -
  let ?bs = "[1, 0, 0, 0, 0, 0, 0, 0, 0x7B] :: byte list"
  let ?loads = "\<lambda>j :: byte list.
    if j = [0x7B, 0x7D] then Inr (PyDict []) else Inl (JSONDecodeError ''Expecting property name'')"
  have room: "read_error example_runtime (unpack_Q (take 8 ?bs)) = None"
    by (rule read_error_small) simp
  have "?loads (header_json ?bs) = Inl (JSONDecodeError ''Expecting property name'')"
    by (simp add: header_json_def)
  from parse_error_is_fatal [of "[filename \<mapsto> ?bs]" ?bs example_runtime ?loads, OF _ _ room this]
  show ?thesis
    by (simp add: header_size_line_def str_nat.simps digit_def)
qed

text \<open>
  Against C8 as it is worded. The text \<^verbatim>\<open>{"__metadata__":NaN}\<close> is not valid JSON, which
  has no \<^verbatim>\<open>NaN\<close>; \<^verbatim>\<open>json.loads\<close> accepts it all the same (as it accepts \<^verbatim>\<open>Infinity\<close> and
  \<^verbatim>\<open>-Infinity\<close>) and returns a dictionary whose one value is the not-a-number. The run on
  the file that holds the prefix 20 and that text goes through the aggregation and the
  report, and finishes with exit status 0.
\<close>

theorem parse_error_counterexample:
  "\<not> valid_json [0x7B, 0x22, 0x5F, 0x5F, 0x6D, 0x65, 0x74, 0x61, 0x64, 0x61, 0x74, 0x61,
      0x5F, 0x5F, 0x22, 0x3A, 0x4E, 0x61, 0x4E, 0x7D]
   \<and> main example_runtime
      (\<lambda>j. if j = [0x7B, 0x22, 0x5F, 0x5F, 0x6D, 0x65, 0x74, 0x61, 0x64, 0x61, 0x74, 0x61,
                    0x5F, 0x5F, 0x22, 0x3A, 0x4E, 0x61, 0x4E, 0x7D]
            then Inr (PyDict [(''__metadata__'', PyFloat NaN)])
            else Inl (JSONDecodeError []))
      [filename \<mapsto> [20, 0, 0, 0, 0, 0, 0, 0,
         0x7B, 0x22, 0x5F, 0x5F, 0x6D, 0x65, 0x74, 0x61, 0x64, 0x61, 0x74, 0x61,
         0x5F, 0x5F, 0x22, 0x3A, 0x4E, 0x61, 0x4E, 0x7D]]
    = \<lparr>stdout = [''Header size: 20'', tensor_analysis_line, distribution_line],
       reads = [8, 20], ending = Finished\<rparr>
   \<and> exit_status Finished = 0"
proof -
  let ?text = "[0x7B, 0x22, 0x5F, 0x5F, 0x6D, 0x65, 0x74, 0x61, 0x64, 0x61, 0x74, 0x61,
      0x5F, 0x5F, 0x22, 0x3A, 0x4E, 0x61, 0x4E, 0x7D] :: byte list"
  let ?bs = "[20, 0, 0, 0, 0, 0, 0, 0] @ ?text"
  let ?entries = "[(''__metadata__'', PyFloat NaN)]"
  let ?loads = "\<lambda>j. if j = ?text then Inr (PyDict ?entries) else Inl (JSONDecodeError [])"
  have "json_value n [0x4E, 0x61, 0x4E, 0x7D] = None" for n
    by (cases n)
      (simp_all add: skip_ws_def is_ws_def json_number_def json_unsigned_def json_digits_def
        is_digit_byte_def)
  then have "json_members n (drop 1 ?text) = None" for n
    by (cases n) (simp_all add: skip_ws_def is_ws_def)
  then have "json_value n ?text = None" for n
    by (cases n) (simp_all add: skip_ws_def is_ws_def)
  then have invalid: "\<not> valid_json ?text"
    by (simp add: valid_json_def skip_ws_def is_ws_def)
  have room: "read_error example_runtime (unpack_Q (take 8 ?bs)) = None"
    by (rule read_error_small) simp
  have json: "header_json ?bs = ?text"
    by (simp add: header_json_def)
  have parsed: "?loads (header_json ?bs) = Inr (PyDict ?entries)"
    unfolding json by simp
  have "main example_runtime ?loads [filename \<mapsto> ?bs]
    = \<lparr>stdout = [''Header size: 20'', tensor_analysis_line, distribution_line],
       reads = [8, 20], ending = Finished\<rparr>"
    using main_read [of "[filename \<mapsto> ?bs]" ?bs example_runtime ?loads, OF _ _ room] parsed
    by (simp add: analyze_dict header_size_line_def str_nat.simps digit_def)
  with invalid show ?thesis by simp
qed

section \<open>The metadata entry\<close>

lemma aggregate_tensors: "aggregate rt entries st = aggregate rt (tensors entries) st"
  by (induction rt entries st rule: aggregate.induct) (auto simp: tensors_def split: sum.splits)

text \<open>
  C2. The entry under \<^verbatim>\<open>__metadata__\<close> is skipped whatever its value is: the loop over a
  header gives the same buckets and the same total (or the same exception) as the loop over
  the header without that entry, from any state; a metadata entry in front changes nothing;
  and the rest of the script prints and ends the same.
\<close>

theorem metadata_contributes_nothing:
  "aggregate rt entries st
     = aggregate rt (filter (\<lambda>(k, v). k \<noteq> ''__metadata__'') entries) st
   \<and> aggregate rt ((''__metadata__'', v) # entries) st = aggregate rt entries st
   \<and> analyze rt (PyDict entries) out
       = analyze rt (PyDict (filter (\<lambda>(k, v). k \<noteq> ''__metadata__'') entries)) out"
proof -
  have a: "aggregate rt entries st
      = aggregate rt (filter (\<lambda>(k, v). k \<noteq> ''__metadata__'') entries) st" for st
    using aggregate_tensors [of rt entries st] by (simp add: tensors_def)
  have "analyze rt (PyDict entries) out
      = analyze rt (PyDict (filter (\<lambda>(k, v). k \<noteq> ''__metadata__'') entries)) out"
    by (simp add: analyze_def items_def a [symmetric])
  with a show ?thesis by simp
qed

section \<open>A header without tensors\<close>

text \<open>
  C9. A header that is read and parsed as an empty object, or as an object whose only key is
  \<^verbatim>\<open>__metadata__\<close>: the output is the header-size line and the two section lines, with no
  row after them, and the script reaches its end, exit status 0. No division takes place.
\<close>

theorem no_tensors_prints_headings_only:
  assumes "fs filename = Some bs" and "8 \<le> length bs"
    and "read_error rt (unpack_Q (take 8 bs)) = None"
    and "loads (header_json bs) = Inr (PyDict entries)"
    and "set (map fst entries) \<subseteq> {''__metadata__''}"
  shows "main rt loads fs
      = \<lparr>stdout = [header_size_line bs, tensor_analysis_line, distribution_line],
         reads = [8, unpack_Q (take 8 bs)], ending = Finished\<rparr>
    \<and> exit_status (ending (main rt loads fs)) = 0"
proof -
  have "tensors entries = []"
    using assms(5) by (auto simp: tensors_def filter_empty_conv)
  then have "aggregate rt entries ([], NInt 0) = Inr ([], NInt 0)"
    using aggregate_tensors [of rt entries "([], NInt 0)"] by simp
  then have "analyze rt (PyDict entries) [header_size_line bs]
      = ([header_size_line bs, tensor_analysis_line, distribution_line], Finished)"
    by (simp add: analyze_dict)
  then show ?thesis
    using main_read [of fs bs rt loads, OF assms(1,2,3)] assms(4) by simp
qed

text \<open>
  The file holds the prefix 32 and the text \<^verbatim>\<open>{"__metadata__":{"format":"pt"}}\<close>; the
  parser knows that text only.
\<close>

theorem no_tensors_prints_headings_only_witness:
  "main example_runtime
      (\<lambda>j. if j = [0x7B, 0x22, 0x5F, 0x5F, 0x6D, 0x65, 0x74, 0x61, 0x64, 0x61, 0x74, 0x61, 0x5F, 0x5F, 0x22, 0x3A, 0x7B, 0x22, 0x66, 0x6F, 0x72, 0x6D, 0x61, 0x74, 0x22, 0x3A, 0x22, 0x70, 0x74, 0x22, 0x7D, 0x7D]
               then Inr (PyDict [(''__metadata__'', PyDict [(''format'', PyStr ''pt'')])])
               else Inl (JSONDecodeError []))
      [filename \<mapsto> [32, 0, 0, 0, 0, 0, 0, 0, 0x7B, 0x22, 0x5F, 0x5F, 0x6D, 0x65, 0x74, 0x61, 0x64, 0x61, 0x74, 0x61, 0x5F, 0x5F, 0x22, 0x3A, 0x7B, 0x22, 0x66, 0x6F, 0x72, 0x6D, 0x61, 0x74, 0x22, 0x3A, 0x22, 0x70, 0x74, 0x22, 0x7D, 0x7D]]
    = \<lparr>stdout = [''Header size: 32'', tensor_analysis_line, distribution_line],
       reads = [8, 32], ending = Finished\<rparr>"
proof -
  let ?text = "[0x7B, 0x22, 0x5F, 0x5F, 0x6D, 0x65, 0x74, 0x61, 0x64, 0x61, 0x74, 0x61, 0x5F, 0x5F, 0x22, 0x3A, 0x7B, 0x22, 0x66, 0x6F, 0x72, 0x6D, 0x61, 0x74, 0x22, 0x3A, 0x22, 0x70, 0x74, 0x22, 0x7D, 0x7D] :: byte list"
  let ?bs = "[32, 0, 0, 0, 0, 0, 0, 0] @ ?text"
  let ?entries = "[(''__metadata__'', PyDict [(''format'', PyStr ''pt'')])]"
  let ?loads = "\<lambda>j. if j = ?text then Inr (PyDict ?entries) else Inl (JSONDecodeError [])"
  have room: "read_error example_runtime (unpack_Q (take 8 ?bs)) = None"
    by (rule read_error_small) simp
  have json: "header_json ?bs = ?text"
    by (simp add: header_json_def)
  have "?loads (header_json ?bs) = Inr (PyDict ?entries)"
    unfolding json by simp
  from no_tensors_prints_headings_only
    [of "[filename \<mapsto> ?bs]" ?bs example_runtime ?loads ?entries, OF _ _ room this]
  show ?thesis
    by (simp add: header_size_line_def str_nat.simps digit_def)
qed

section \<open>The loop on well-typed entries\<close>

lemma ints_Some: "ints xs = Some dims \<Longrightarrow> xs = map PyInt dims"
  by (induction xs arbitrary: dims rule: ints.induct) auto

lemma product_ints:
  "product rt (PyInt n) (map PyInt dims) = Inr (PyInt (n * prod_list dims))"
  by (induction dims arbitrary: n) (simp_all add: py_mul_def mult.assoc)

lemma dict_get_int_buckets:
  "dict_get (int_buckets d) k (NInt c0) = NInt (dict_get d k c0)"
  by (induction d) (auto simp: int_buckets_def)

lemma dict_set_int_buckets:
  "dict_set (int_buckets d) k (NInt c) = int_buckets (dict_set d k c)"
  by (induction d) (auto simp: int_buckets_def)

lemma sum_dict_set:
  fixes d :: "(key \<times> int) list"
  shows "sum_list (map snd (dict_set d k c)) = sum_list (map snd d) - dict_get d k 0 + c"
  by (induction d) auto

lemma tally_descriptor:
  assumes "descriptor v = Some (s, dims)"
  shows "tally rt v (int_buckets d, NInt t)
    = Inr (int_buckets (dict_set d (KStr s) (dict_get d (KStr s) 0 + prod_list dims)),
           NInt (t + prod_list dims))"
proof -
  from assms obtain fields xs where v: "v = PyDict fields"
    and dtype: "map_of fields ''dtype'' = Some (PyStr s)"
    and shape: "map_of fields ''shape'' = Some (PyList xs)"
    and xs: "ints xs = Some dims"
    by (auto simp: descriptor_def split: pyval.splits option.splits)
  have "product rt (PyInt 1) xs = Inr (PyInt (prod_list dims))"
    using product_ints [of rt 1 dims] ints_Some [OF xs] by simp
  then show ?thesis
    by (simp add: tally_def subscript_def v dtype shape iter_def hash_key_def add_num_def
        dict_get_int_buckets dict_set_int_buckets)
qed

lemma aggregate_typed:
  assumes "list_all (\<lambda>(k, v). descriptor v \<noteq> None) (tensors entries)"
  shows "\<exists>d'. aggregate rt entries (int_buckets d, NInt t)
        = Inr (int_buckets d', NInt (t + sum_list (map (\<lambda>(k, v). elements v) (tensors entries))))
      \<and> sum_list (map snd d')
        = sum_list (map snd d) + sum_list (map (\<lambda>(k, v). elements v) (tensors entries))"
  using assms
proof (induction entries arbitrary: d t)
  case Nil
  show ?case by (rule exI [of _ d]) (simp add: tensors_def)
next
  case (Cons entry entries)
  obtain k v where entry: "entry = (k, v)" by (cases entry)
  show ?case
  proof (cases "k = ''__metadata__''")
    case True
    with Cons entry show ?thesis by (simp add: tensors_def)
  next
    case False
    with Cons.prems entry obtain s dims where desc: "descriptor v = Some (s, dims)"
      by (auto simp: tensors_def)
    let ?d = "dict_set d (KStr s) (dict_get d (KStr s) 0 + prod_list dims)"
    from Cons.prems entry False
    have "list_all (\<lambda>(k, v). descriptor v \<noteq> None) (tensors entries)"
      by (simp add: tensors_def)
    from Cons.IH [OF this, of ?d "t + prod_list dims"]
    obtain d' where
      run: "aggregate rt entries (int_buckets ?d, NInt (t + prod_list dims))
        = Inr (int_buckets d',
            NInt (t + prod_list dims + sum_list (map (\<lambda>(k, v). elements v) (tensors entries))))"
      and sum: "sum_list (map snd d')
        = sum_list (map snd ?d) + sum_list (map (\<lambda>(k, v). elements v) (tensors entries))"
      by blast
    have el: "elements v = prod_list dims"
      by (simp add: elements_def desc)
    have "aggregate rt (entry # entries) (int_buckets d, NInt t)
        = Inr (int_buckets d',
            NInt (t + sum_list (map (\<lambda>(k, v). elements v) (tensors (entry # entries)))))"
      using run False by (simp add: entry tally_descriptor [OF desc] tensors_def el add.assoc)
    moreover have "sum_list (map snd d')
        = sum_list (map snd d) + sum_list (map (\<lambda>(k, v). elements v) (tensors (entry # entries)))"
      using sum False by (simp add: entry tensors_def el sum_dict_set)
    ultimately show ?thesis by blast
  qed
qed

lemma well_formed_typed:
  "well_formed entries \<Longrightarrow> list_all (\<lambda>(k, v). descriptor v \<noteq> None) (tensors entries)"
  by (auto simp: well_formed_def well_formed_entry_def list_all_iff split: option.splits)

text \<open>
  C1. On a well-formed header the loop ends without an exception; every bucket count and the
  grand total are integers; the grand total is the sum, over the entries that are not the
  metadata, of the product of the dimensions of the entry (an empty shape counts 1); and the
  counts of the buckets add up to the grand total.
\<close>

theorem grand_total_is_sum_of_products:
  assumes "well_formed entries"
  shows "\<exists>dtypes. aggregate rt entries ([], NInt 0)
        = Inr (int_buckets dtypes,
               NInt (sum_list (map (\<lambda>(k, v). elements v) (tensors entries))))
      \<and> sum_list (map snd dtypes) = sum_list (map (\<lambda>(k, v). elements v) (tensors entries))"
  using aggregate_typed [OF well_formed_typed [OF assms], of rt "[]" 0]
  by (simp add: int_buckets_def)

text \<open>
  The second example of the specification: two tensors of two elements each and a metadata
  entry; and a scalar, whose empty shape counts 1.
\<close>

theorem grand_total_is_sum_of_products_witness:
  "well_formed
     [(''a'', PyDict [(''dtype'', PyStr ''F32''), (''shape'', PyList [PyInt 2])]),
      (''b'', PyDict [(''dtype'', PyStr ''I64''), (''shape'', PyList [PyInt 2])]),
      (''s'', PyDict [(''dtype'', PyStr ''I64''), (''shape'', PyList [])]),
      (''__metadata__'', PyDict [(''format'', PyStr ''pt'')])]
   \<and> (\<exists>dtypes. aggregate example_runtime
     [(''a'', PyDict [(''dtype'', PyStr ''F32''), (''shape'', PyList [PyInt 2])]),
      (''b'', PyDict [(''dtype'', PyStr ''I64''), (''shape'', PyList [PyInt 2])]),
      (''s'', PyDict [(''dtype'', PyStr ''I64''), (''shape'', PyList [])]),
      (''__metadata__'', PyDict [(''format'', PyStr ''pt'')])] ([], NInt 0)
        = Inr (int_buckets dtypes, NInt 5)
      \<and> sum_list (map snd dtypes) = 5)"
proof -
  let ?h = "[(''a'', PyDict [(''dtype'', PyStr ''F32''), (''shape'', PyList [PyInt 2])]),
      (''b'', PyDict [(''dtype'', PyStr ''I64''), (''shape'', PyList [PyInt 2])]),
      (''s'', PyDict [(''dtype'', PyStr ''I64''), (''shape'', PyList [])]),
      (''__metadata__'', PyDict [(''format'', PyStr ''pt'')])]"
  have wf: "well_formed ?h"
    by (simp add: well_formed_def well_formed_entry_def tensors_def descriptor_def)
  have "sum_list (map (\<lambda>(k, v). elements v) (tensors ?h)) = 5"
    by (simp add: tensors_def elements_def descriptor_def)
  with grand_total_is_sum_of_products [OF wf, of example_runtime] wf show ?thesis
    by simp
qed

section \<open>A grand total of zero\<close>

lemma dict_set_not_Nil: "dict_set d k c \<noteq> []"
  by (cases d) (auto split: if_splits)

lemma tally_not_Nil: "tally rt v st = Inr (d', t') \<Longrightarrow> d' \<noteq> []"
  by (auto simp: tally_def dict_set_not_Nil split: sum.splits)

lemma aggregate_Nil_iff:
  "aggregate rt entries (d, t) = Inr (d', t') \<Longrightarrow> (d' = []) = (d = [] \<and> tensors entries = [])"
proof (induction entries arbitrary: d t)
  case Nil
  then show ?case by (simp add: tensors_def)
next
  case (Cons entry entries)
  obtain k v where entry: "entry = (k, v)" by (cases entry)
  show ?case
  proof (cases "k = ''__metadata__''")
    case True
    with Cons entry show ?thesis by (simp add: tensors_def)
  next
    case False
    with Cons.prems entry obtain d1 t1 where step: "tally rt v (d, t) = Inr (d1, t1)"
      and rest: "aggregate rt entries (d1, t1) = Inr (d', t')"
      by (auto split: sum.splits)
    from Cons.IH [OF rest] tally_not_Nil [OF step] have "d' \<noteq> []" by simp
    with False entry show ?thesis by (simp add: tensors_def)
  qed
qed

lemma float_of_int_error: "float_of_int i = Inl e \<Longrightarrow> e = OverflowError"
  by (auto simp: float_of_int_def split: if_splits option.splits)

lemma percentage_zero_total:
  assumes "num_is_zero t"
  shows "percentage c t
    = Inl (if unconvertible c t then OverflowError else ZeroDivisionError)"
proof (cases t)
  case (NInt j)
  with assms have j: "j = 0" by simp
  show ?thesis
  proof (cases c)
    case (NInt i)
    with \<open>t = NInt j\<close> j show ?thesis by (simp add: percentage_def truediv_def)
  next
    case (NFloat x)
    with \<open>t = NInt j\<close> j show ?thesis by (simp add: percentage_def float_of_int_def)
  qed
next
  case (NFloat y)
  with assms have y: "is_zero y" by simp
  show ?thesis
  proof (cases c)
    case (NInt i)
    show ?thesis
    proof (cases "float_of_int i")
      case (Inl e)
      with float_of_int_error [OF Inl] NInt \<open>t = NFloat y\<close> show ?thesis
        by (simp add: percentage_def)
    next
      case (Inr x)
      with NInt \<open>t = NFloat y\<close> y show ?thesis by (simp add: percentage_def)
    qed
  next
    case c: (NFloat x)
    with NFloat y show ?thesis by (simp add: percentage_def)
  qed
qed

lemma row_zero_total:
  assumes "num_is_zero t"
  shows "row rt k c t
    = Inl (if unprintable (k, c) then ValueError
           else if unconvertible c t then OverflowError else ZeroDivisionError)"
proof (cases "unprintable (k, c)")
  case True
  then show ?thesis
    by (cases k; cases c) (auto simp: row_def format_int_def)
next
  case False
  then obtain a b where "str_key rt k = Inr a" and "str_num rt c = Inr b"
    by (cases k; cases c) (auto simp: format_int_def split: if_splits)
  with False percentage_zero_total [OF assms, of c] show ?thesis
    by (simp add: row_def)
qed

lemma report_zero_total:
  assumes "num_is_zero t"
  shows "report rt d t out
    = (out, case d of
              [] \<Rightarrow> Finished
            | b # rest \<Rightarrow>
                Uncaught (if unprintable b then ValueError
                          else if unconvertible (snd b) t then OverflowError
                          else ZeroDivisionError))"
proof (cases d)
  case Nil
  then show ?thesis by simp
next
  case (Cons b rest)
  obtain k c where b: "b = (k, c)" by (cases b)
  show ?thesis
    unfolding Cons b by (simp add: row_zero_total [OF assms])
qed

lemma small_not_too_long: "\<bar>i\<bar> < 2 ^ 1024 \<Longrightarrow> \<not> too_long i"
proof -
  assume small: "\<bar>i\<bar> < 2 ^ 1024"
  have "(2 :: int) ^ 1024 \<le> 10 ^ 1024" by (rule power_mono) simp_all
  also have "\<dots> \<le> 10 ^ 4300" by (rule power_increasing) simp_all
  finally have "(2 :: int) ^ 1024 \<le> 10 ^ 4300" .
  with small have "\<bar>i\<bar> < 10 ^ 4300" by (rule less_le_trans)
  then show ?thesis unfolding too_long_def by (simp only: not_le)
qed

text \<open>
  C6, as the script has it. Take a header that is read and parsed, on which the loop ends
  with a grand total of zero (the integer 0 or a float zero). If every entry is the
  metadata, the bucket mapping is empty, no division is made and the run finishes with exit
  status 0. If some entry is not the metadata, the bucket mapping is not empty, both section
  lines are printed and the first row raises, exit status 1: \<^verbatim>\<open>ZeroDivisionError\<close>, unless
  \<^verbatim>\<open>str\<close> refuses the dtype or the count of that row, an integer of more than 4300 digits,
  which is a \<^verbatim>\<open>ValueError\<close> before the division, or the count is an integer too large for
  a float and the total a float, which is an \<^verbatim>\<open>OverflowError\<close>.
\<close>

theorem zero_total_divides_iff_some_tensor:
  assumes "fs filename = Some bs" and "8 \<le> length bs"
    and "read_error rt (unpack_Q (take 8 bs)) = None"
    and "loads (header_json bs) = Inr (PyDict entries)"
    and "aggregate rt entries ([], NInt 0) = Inr (dtypes, total_elements)"
    and "num_is_zero total_elements"
  shows "(dtypes = []) = (tensors entries = [])
    \<and> stdout (main rt loads fs) = [header_size_line bs, tensor_analysis_line, distribution_line]
    \<and> ending (main rt loads fs)
        = (case dtypes of
             [] \<Rightarrow> Finished
           | b # rest \<Rightarrow>
               Uncaught (if unprintable b then ValueError
                         else if unconvertible (snd b) total_elements then OverflowError
                         else ZeroDivisionError))
    \<and> exit_status (ending (main rt loads fs)) = (if tensors entries = [] then 0 else 1)"
proof -
  have empty: "(dtypes = []) = (tensors entries = [])"
    using aggregate_Nil_iff [OF assms(5)] by simp
  have "analyze rt (PyDict entries) [header_size_line bs]
      = ([header_size_line bs, tensor_analysis_line, distribution_line],
         case dtypes of
           [] \<Rightarrow> Finished
         | b # rest \<Rightarrow>
             Uncaught (if unprintable b then ValueError
                       else if unconvertible (snd b) total_elements then OverflowError
                       else ZeroDivisionError))"
    using assms(5) by (simp add: analyze_dict report_zero_total [OF assms(6)])
  then have run: "main rt loads fs
      = \<lparr>stdout = [header_size_line bs, tensor_analysis_line, distribution_line],
         reads = [8, unpack_Q (take 8 bs)],
         ending = (case dtypes of
             [] \<Rightarrow> Finished
           | b # rest \<Rightarrow>
               Uncaught (if unprintable b then ValueError
                         else if unconvertible (snd b) total_elements then OverflowError
                         else ZeroDivisionError))\<rparr>"
    using main_read [of fs bs rt loads, OF assms(1,2,3)] assms(4) by simp
  have "exit_status (ending (main rt loads fs)) = (if tensors entries = [] then 0 else 1)"
    unfolding run using empty by (cases dtypes) simp_all
  with empty run show ?thesis by simp
qed

text \<open>
  The file holds the prefix 33 and the text \<^verbatim>\<open>{"w":{"dtype":"F32","shape":[0]}}\<close>; the
  parser knows that text only. The total is zero and the first row divides by it.
\<close>

theorem zero_total_divides_iff_some_tensor_witness:
  "stdout (main example_runtime
      (\<lambda>j. if j = [0x7B, 0x22, 0x77, 0x22, 0x3A, 0x7B, 0x22, 0x64, 0x74, 0x79, 0x70, 0x65,
      0x22, 0x3A, 0x22, 0x46, 0x33, 0x32, 0x22, 0x2C, 0x22, 0x73, 0x68, 0x61,
      0x70, 0x65, 0x22, 0x3A, 0x5B, 0x30, 0x5D, 0x7D, 0x7D]
               then Inr (PyDict [(''w'', PyDict [(''dtype'', PyStr ''F32''),
                                                 (''shape'', PyList [PyInt 0])])])
               else Inl (JSONDecodeError []))
      [filename \<mapsto> [33, 0, 0, 0, 0, 0, 0, 0,
      0x7B, 0x22, 0x77, 0x22, 0x3A, 0x7B, 0x22, 0x64, 0x74, 0x79, 0x70, 0x65,
      0x22, 0x3A, 0x22, 0x46, 0x33, 0x32, 0x22, 0x2C, 0x22, 0x73, 0x68, 0x61,
      0x70, 0x65, 0x22, 0x3A, 0x5B, 0x30, 0x5D, 0x7D, 0x7D]])
    = [''Header size: 33'', tensor_analysis_line, distribution_line]
   \<and> ending (main example_runtime
      (\<lambda>j. if j = [0x7B, 0x22, 0x77, 0x22, 0x3A, 0x7B, 0x22, 0x64, 0x74, 0x79, 0x70, 0x65,
      0x22, 0x3A, 0x22, 0x46, 0x33, 0x32, 0x22, 0x2C, 0x22, 0x73, 0x68, 0x61,
      0x70, 0x65, 0x22, 0x3A, 0x5B, 0x30, 0x5D, 0x7D, 0x7D]
               then Inr (PyDict [(''w'', PyDict [(''dtype'', PyStr ''F32''),
                                                 (''shape'', PyList [PyInt 0])])])
               else Inl (JSONDecodeError []))
      [filename \<mapsto> [33, 0, 0, 0, 0, 0, 0, 0,
      0x7B, 0x22, 0x77, 0x22, 0x3A, 0x7B, 0x22, 0x64, 0x74, 0x79, 0x70, 0x65,
      0x22, 0x3A, 0x22, 0x46, 0x33, 0x32, 0x22, 0x2C, 0x22, 0x73, 0x68, 0x61,
      0x70, 0x65, 0x22, 0x3A, 0x5B, 0x30, 0x5D, 0x7D, 0x7D]])
    = Uncaught ZeroDivisionError"
proof -
  let ?text = "[0x7B, 0x22, 0x77, 0x22, 0x3A, 0x7B, 0x22, 0x64, 0x74, 0x79, 0x70, 0x65,
      0x22, 0x3A, 0x22, 0x46, 0x33, 0x32, 0x22, 0x2C, 0x22, 0x73, 0x68, 0x61,
      0x70, 0x65, 0x22, 0x3A, 0x5B, 0x30, 0x5D, 0x7D, 0x7D] :: byte list"
  let ?bs = "[33, 0, 0, 0, 0, 0, 0, 0] @ ?text"
  let ?entries = "[(''w'', PyDict [(''dtype'', PyStr ''F32''), (''shape'', PyList [PyInt 0])])]"
  let ?loads = "\<lambda>j. if j = ?text then Inr (PyDict ?entries) else Inl (JSONDecodeError [])"
  have room: "read_error example_runtime (unpack_Q (take 8 ?bs)) = None"
    by (rule read_error_small) simp
  have json: "header_json ?bs = ?text"
    by (simp add: header_json_def)
  have parsed: "?loads (header_json ?bs) = Inr (PyDict ?entries)"
    unfolding json by simp
  have agg: "aggregate example_runtime ?entries ([], NInt 0)
      = Inr ([(KStr ''F32'', NInt 0)], NInt 0)"
    by (simp add: tally_def subscript_def iter_def py_mul_def hash_key_def add_num_def)
  have printable: "\<not> unprintable (KStr ''F32'', NInt 0)"
    by (simp add: small_not_too_long)
  from zero_total_divides_iff_some_tensor
    [of "[filename \<mapsto> ?bs]" ?bs example_runtime ?loads ?entries "[(KStr ''F32'', NInt 0)]"
      "NInt 0", OF _ _ room parsed agg] printable
  show ?thesis
    by (simp add: header_size_line_def str_nat.simps digit_def)
qed

text \<open>
  Against C6 as it is worded. The header \<^verbatim>\<open>{}\<close> has a grand total of zero and its run
  finishes, with no \<^verbatim>\<open>ZeroDivisionError\<close>. The header with one tensor of shape \<^verbatim>\<open>[0]\<close> has a
  grand total of zero and a bucket mapping that is not empty.
\<close>

theorem zero_total_counterexample:
  "aggregate example_runtime [] ([], NInt 0) = Inr ([], NInt 0)
   \<and> ending (main example_runtime
        (\<lambda>j. if j = [0x7B, 0x7D] then Inr (PyDict []) else Inl (JSONDecodeError []))
        [filename \<mapsto> [2, 0, 0, 0, 0, 0, 0, 0, 0x7B, 0x7D]]) = Finished
   \<and> aggregate example_runtime
        [(''w'', PyDict [(''dtype'', PyStr ''F32''), (''shape'', PyList [PyInt 0])])]
        ([], NInt 0)
       = Inr ([(KStr ''F32'', NInt 0)], NInt 0)"
proof -
  let ?bs = "[2, 0, 0, 0, 0, 0, 0, 0, 0x7B, 0x7D] :: byte list"
  let ?loads = "\<lambda>j :: byte list. if j = [0x7B, 0x7D] then Inr (PyDict []) else Inl (JSONDecodeError [])"
  have room: "read_error example_runtime (unpack_Q (take 8 ?bs)) = None"
    by (rule read_error_small) simp
  have "ending (main example_runtime ?loads [filename \<mapsto> ?bs]) = Finished"
    using main_read [of "[filename \<mapsto> ?bs]" ?bs example_runtime ?loads, OF _ _ room]
    by (simp add: header_json_def analyze_dict)
  moreover have "aggregate example_runtime
      [(''w'', PyDict [(''dtype'', PyStr ''F32''), (''shape'', PyList [PyInt 0])])] ([], NInt 0)
      = Inr ([(KStr ''F32'', NInt 0)], NInt 0)"
    by (simp add: tally_def subscript_def iter_def py_mul_def hash_key_def add_num_def)
  ultimately show ?thesis by simp
qed

section \<open>An entry without its fields\<close>

lemma subscript_missing: "\<not> has_field v k \<Longrightarrow> \<exists>e. subscript v k = Inl e"
  by (cases v) (auto simp: subscript_def has_field_def map_of_eq_None_iff split: option.splits)

lemma subscript_dict_missing:
  "\<not> has_field (PyDict d) k \<Longrightarrow> subscript (PyDict d) k = Inl (KeyError k)"
  by (auto simp: subscript_def has_field_def map_of_eq_None_iff split: option.splits)

lemma subscript_present: "has_field v k \<Longrightarrow> \<exists>x. subscript v k = Inr x"
  by (cases v) (auto simp: subscript_def has_field_def split: option.splits dest: weak_map_of_SomeI)

lemma tally_missing:
  assumes "\<not> has_field v ''dtype'' \<or> \<not> has_field v ''shape''"
  shows "\<exists>e. tally rt v st = Inl e"
proof (cases "has_field v ''dtype''")
  case False
  from subscript_missing [OF this] show ?thesis by (auto simp: tally_def)
next
  case True
  with assms have "\<not> has_field v ''shape''" by simp
  from subscript_missing [OF this] subscript_present [OF True] show ?thesis
    by (auto simp: tally_def)
qed

lemma tally_dict_missing:
  assumes "\<not> has_field (PyDict d) ''dtype'' \<or> \<not> has_field (PyDict d) ''shape''"
  shows "tally rt (PyDict d) st
    = Inl (KeyError (if has_field (PyDict d) ''dtype'' then ''shape'' else ''dtype''))"
proof (cases "has_field (PyDict d) ''dtype''")
  case False
  from subscript_dict_missing [OF this] False show ?thesis by (simp add: tally_def)
next
  case True
  with assms have "\<not> has_field (PyDict d) ''shape''" by simp
  from subscript_dict_missing [OF this] subscript_present [OF True] True show ?thesis
    by (auto simp: tally_def)
qed

lemma aggregate_append:
  "aggregate rt (xs @ ys) st
    = (case aggregate rt xs st of Inl e \<Rightarrow> Inl e | Inr st' \<Rightarrow> aggregate rt ys st')"
  by (induction rt xs st rule: aggregate.induct) (auto split: sum.splits)

lemma aggregate_missing:
  assumes "(k, v) \<in> set entries" and "k \<noteq> ''__metadata__''"
    and "\<not> has_field v ''dtype'' \<or> \<not> has_field v ''shape''"
  shows "\<exists>e. aggregate rt entries st = Inl e"
proof -
  from assms(1) obtain pre post where split: "entries = pre @ (k, v) # post"
    by (auto simp: in_set_conv_decomp)
  show ?thesis
  proof (cases "aggregate rt pre st")
    case (Inl e)
    then show ?thesis by (simp add: split aggregate_append)
  next
    case (Inr st')
    from tally_missing [OF assms(3), of rt st'] obtain e where "tally rt v st' = Inl e" by blast
    with Inr assms(2) show ?thesis by (simp add: split aggregate_append)
  qed
qed

text \<open>
  C7, as the script has it. A header that is read and parsed, with an entry, not the
  metadata, whose value has no \<^verbatim>\<open>dtype\<close> or no \<^verbatim>\<open>shape\<close>: the loop ends with an exception
  (the entry is neither skipped nor given a default), the run ends with that exception
  uncaught, exit status 1, after the line \<^verbatim>\<open>Tensor analysis:\<close> and before the report. The
  exception does not name the key of the entry: when the entry is a dictionary and the
  entries before it raise nothing, it is a \<^verbatim>\<open>KeyError\<close> carrying the name of the missing
  field, \<^verbatim>\<open>dtype\<close> if that is missing and \<^verbatim>\<open>shape\<close> otherwise.
\<close>

theorem missing_field_is_fatal:
  assumes "fs filename = Some bs" and "8 \<le> length bs"
    and "read_error rt (unpack_Q (take 8 bs)) = None"
    and "loads (header_json bs) = Inr (PyDict entries)"
    and "entries = pre @ (k, v) # post" and "k \<noteq> ''__metadata__''"
    and "\<not> has_field v ''dtype'' \<or> \<not> has_field v ''shape''"
  shows "\<exists>e. aggregate rt entries ([], NInt 0) = Inl e
    \<and> main rt loads fs = \<lparr>stdout = [header_size_line bs, tensor_analysis_line],
          reads = [8, unpack_Q (take 8 bs)], ending = Uncaught e\<rparr>
    \<and> exit_status (ending (main rt loads fs)) = 1
    \<and> (case (v, aggregate rt pre ([], NInt 0)) of
          (PyDict d, Inr st) \<Rightarrow>
            e = KeyError (if has_field v ''dtype'' then ''shape'' else ''dtype'')
        | _ \<Rightarrow> True)"
proof -
  have "(k, v) \<in> set entries" using assms(5) by simp
  from aggregate_missing [OF this assms(6,7)]
  obtain e where e: "aggregate rt entries ([], NInt 0) = Inl e" by blast
  then have "analyze rt (PyDict entries) [header_size_line bs]
      = ([header_size_line bs, tensor_analysis_line], Uncaught e)"
    by (simp add: analyze_dict)
  then have run: "main rt loads fs = \<lparr>stdout = [header_size_line bs, tensor_analysis_line],
          reads = [8, unpack_Q (take 8 bs)], ending = Uncaught e\<rparr>"
    using main_read [of fs bs rt loads, OF assms(1,2,3)] assms(4) by simp
  have named: "e = KeyError (if has_field v ''dtype'' then ''shape'' else ''dtype'')"
    if "v = PyDict d" and "aggregate rt pre ([], NInt 0) = Inr st" for d st
    using e that assms(6) tally_dict_missing [of d rt st] assms(7)
    by (simp add: assms(5) aggregate_append)
  have "case (v, aggregate rt pre ([], NInt 0)) of
          (PyDict d, Inr st) \<Rightarrow>
            e = KeyError (if has_field v ''dtype'' then ''shape'' else ''dtype'')
        | _ \<Rightarrow> True"
    using named by (auto split: pyval.splits sum.splits)
  with e run show ?thesis by simp
qed

text \<open>
  The file holds the prefix 26 and the text \<^verbatim>\<open>{"layer1":{"shape":[2,3]}}\<close>; the parser
  knows that text only.
\<close>

theorem missing_field_is_fatal_witness:
  "main example_runtime
      (\<lambda>j. if j = [0x7B, 0x22, 0x6C, 0x61, 0x79, 0x65, 0x72, 0x31, 0x22, 0x3A, 0x7B, 0x22,
      0x73, 0x68, 0x61, 0x70, 0x65, 0x22, 0x3A, 0x5B, 0x32, 0x2C, 0x33, 0x5D,
      0x7D, 0x7D]
               then Inr (PyDict [(''layer1'', PyDict [(''shape'', PyList [PyInt 2, PyInt 3])])])
               else Inl (JSONDecodeError []))
      [filename \<mapsto> [26, 0, 0, 0, 0, 0, 0, 0,
      0x7B, 0x22, 0x6C, 0x61, 0x79, 0x65, 0x72, 0x31, 0x22, 0x3A, 0x7B, 0x22,
      0x73, 0x68, 0x61, 0x70, 0x65, 0x22, 0x3A, 0x5B, 0x32, 0x2C, 0x33, 0x5D,
      0x7D, 0x7D]]
    = \<lparr>stdout = [''Header size: 26'', tensor_analysis_line], reads = [8, 26],
       ending = Uncaught (KeyError ''dtype'')\<rparr>"
proof -
  let ?text = "[0x7B, 0x22, 0x6C, 0x61, 0x79, 0x65, 0x72, 0x31, 0x22, 0x3A, 0x7B, 0x22,
      0x73, 0x68, 0x61, 0x70, 0x65, 0x22, 0x3A, 0x5B, 0x32, 0x2C, 0x33, 0x5D,
      0x7D, 0x7D] :: byte list"
  let ?bs = "[26, 0, 0, 0, 0, 0, 0, 0] @ ?text"
  let ?v = "PyDict [(''shape'', PyList [PyInt 2, PyInt 3])]"
  let ?entries = "[(''layer1'', ?v)]"
  let ?loads = "\<lambda>j. if j = ?text then Inr (PyDict ?entries) else Inl (JSONDecodeError [])"
  have room: "read_error example_runtime (unpack_Q (take 8 ?bs)) = None"
    by (rule read_error_small) simp
  have json: "header_json ?bs = ?text"
    by (simp add: header_json_def)
  have parsed: "?loads (header_json ?bs) = Inr (PyDict ?entries)"
    unfolding json by simp
  have lacks: "\<not> has_field ?v ''dtype'' \<or> \<not> has_field ?v ''shape''"
    by (simp add: has_field_def)
  from missing_field_is_fatal
    [of "[filename \<mapsto> ?bs]" ?bs example_runtime ?loads ?entries "[]" "''layer1''" ?v "[]",
      OF _ _ room parsed _ _ lacks]
  show ?thesis
    by (auto simp: has_field_def header_size_line_def str_nat.simps digit_def)
qed

text \<open>
  Against C7 as it is worded. An entry without \<^verbatim>\<open>dtype\<close> ends the run with
  \<^verbatim>\<open>KeyError: 'dtype'\<close>, which names the missing field. Under another key the same entry
  gives the same output and the same exception: nothing in the failure tells the key.
\<close>

theorem missing_field_counterexample:
  "analyze example_runtime
      (PyDict [(''layer1'', PyDict [(''shape'', PyList [PyInt 2, PyInt 3])])]) []
     = ([tensor_analysis_line], Uncaught (KeyError ''dtype''))
   \<and> analyze example_runtime
      (PyDict [(''layer2'', PyDict [(''shape'', PyList [PyInt 2, PyInt 3])])]) []
     = ([tensor_analysis_line], Uncaught (KeyError ''dtype''))"
  by (simp add: analyze_def items_def tally_def subscript_def tensor_analysis_line_def)

section \<open>The order of the buckets\<close>

lemma keys_dict_set:
  "map fst (dict_set d k c) = (if has_key d k then map fst d else map fst d @ [k])"
  by (induction d) auto

lemma has_key_append: "has_key (d @ e) k = (has_key d k \<or> has_key e k)"
  by (induction d) auto

lemma has_key_cong: "map fst d = map fst e \<Longrightarrow> has_key d k = has_key e k"
proof (induction d arbitrary: e)
  case Nil
  then show ?case by simp
next
  case (Cons b d)
  then obtain b' e' where e: "e = b' # e'" and "fst b = fst b'" and "map fst d = map fst e'"
    by (cases e) auto
  with Cons.IH [of e'] show ?case
    by (cases b; cases b') simp
qed

lemma has_key_snoc:
  fixes d e :: buckets
  shows "map fst e = map fst d @ [k'] \<Longrightarrow> has_key e k = (has_key d k \<or> key_eq k' k)"
  using has_key_cong [of e "d @ [(k', NInt 0)]" k] by (simp add: has_key_append)

lemma tally_keys:
  assumes "tally rt v (d, t) = Inr (d', t')"
  shows "\<exists>k. dtype_key v = Some k
    \<and> map fst d' = (if has_key d k then map fst d else map fst d @ [k])"
proof -
  from assms obtain x k c where "subscript v ''dtype'' = Inr x" and "hash_key x = Inr k"
    and "d' = dict_set d k c"
    by (auto simp: tally_def split: sum.splits)
  then have "dtype_key v = Some k"
    and "map fst d' = (if has_key d k then map fst d else map fst d @ [k])"
    by (simp_all add: dtype_key_def keys_dict_set)
  then show ?thesis by blast
qed

lemma aggregate_keys:
  assumes "aggregate rt entries (d, t) = Inr (d', t')"
  shows "map fst d'
    = map fst d @ first_seen (filter (\<lambda>k. \<not> has_key d k) (scanned_keys entries))"
  using assms
proof (induction entries arbitrary: d t)
  case Nil
  then show ?case by (simp add: scanned_keys_def tensors_def)
next
  case (Cons entry entries)
  obtain name v where entry: "entry = (name, v)" by (cases entry)
  show ?case
  proof (cases "name = ''__metadata__''")
    case True
    with Cons entry show ?thesis by (simp add: scanned_keys_def tensors_def)
  next
    case False
    with Cons.prems entry obtain d1 t1 where step: "tally rt v (d, t) = Inr (d1, t1)"
      and rest: "aggregate rt entries (d1, t1) = Inr (d', t')"
      by (auto split: sum.splits)
    from tally_keys [OF step] obtain k where k: "dtype_key v = Some k"
      and keys1: "map fst d1 = (if has_key d k then map fst d else map fst d @ [k])"
      by blast
    have scan: "scanned_keys (entry # entries) = k # scanned_keys entries"
      using False k by (simp add: scanned_keys_def tensors_def entry)
    note IH = Cons.IH [OF rest]
    show ?thesis
    proof (cases "has_key d k")
      case True
      with keys1 have same: "map fst d1 = map fst d" by simp
      then have "has_key d1 = has_key d"
        using has_key_cong by blast
      with IH True same show ?thesis by (simp add: scan)
    next
      case new: False
      with keys1 have d1: "map fst d1 = map fst d @ [k]" by simp
      have "filter (\<lambda>x. \<not> has_key d1 x) (scanned_keys entries)
          = filter (\<lambda>x. \<not> key_eq k x) (filter (\<lambda>x. \<not> has_key d x) (scanned_keys entries))"
        by (auto simp: has_key_snoc [OF d1] intro: filter_cong)
      with IH d1 new show ?thesis by (simp add: scan)
    qed
  qed
qed

lemma report_rows:
  assumes "report rt d t out = (out', Finished)"
  shows "\<exists>rows. out' = out @ rows
    \<and> list_all2 (\<lambda>(dtype, count) line. row rt dtype count t = Inr line) d rows"
  using assms
proof (induction d arbitrary: out)
  case Nil
  then show ?case by simp
next
  case (Cons b d)
  obtain dtype count where b: "b = (dtype, count)" by (cases b)
  from Cons.prems b obtain line where line: "row rt dtype count t = Inr line"
    and rest: "report rt d t (out @ [line]) = (out', Finished)"
    by (auto split: sum.splits)
  from Cons.IH [OF rest] obtain rows where
    out': "out' = (out @ [line]) @ rows"
    and rows: "list_all2 (\<lambda>(dtype, count) line. row rt dtype count t = Inr line) d rows"
    by blast
  have "out' = out @ (line # rows)" using out' by simp
  moreover have "list_all2 (\<lambda>(dtype, count) line. row rt dtype count t = Inr line)
      (b # d) (line # rows)"
    using rows line b by simp
  ultimately show ?case by blast
qed

lemma row_Inr:
  "row rt dtype count t = Inr line
    \<longleftrightarrow> (\<exists>k c q. str_key rt dtype = Inr k \<and> str_num rt count = Inr c
          \<and> num_truediv count t = Inr q
          \<and> line = k @ '': '' @ c @ '' elements (''
                @ format_2f (fmul q (Finite False 100 1)) @ ''%)'')"
  by (auto simp: row_def percentage_def split: sum.splits)

lemma analyze_finished:
  assumes "analyze rt header out = (out', Finished)"
  shows "\<exists>entries dtypes total_elements rows. header = PyDict entries
    \<and> aggregate rt entries ([], NInt 0) = Inr (dtypes, total_elements)
    \<and> out' = out @ [tensor_analysis_line, distribution_line] @ rows
    \<and> list_all2 (\<lambda>(dtype, count) line. row rt dtype count total_elements = Inr line)
        dtypes rows"
proof -
  from assms obtain entries where header: "header = PyDict entries"
    by (cases header) (auto simp: analyze_def items_def)
  show ?thesis
  proof (cases "aggregate rt entries ([], NInt 0)")
    case (Inl e)
    with assms header show ?thesis by (simp add: analyze_dict)
  next
    case (Inr st)
    obtain dtypes total_elements where st: "st = (dtypes, total_elements)" by (cases st)
    from assms header Inr st
    have "report rt dtypes total_elements (out @ [tensor_analysis_line, distribution_line])
        = (out', Finished)"
      by (simp add: analyze_dict)
    from report_rows [OF this] header Inr st show ?thesis by auto
  qed
qed

section \<open>The buckets of a well-formed header\<close>

lemma int_buckets_Nil [simp]: "int_buckets [] = []"
  by (simp add: int_buckets_def)

lemma int_buckets_inj: "int_buckets d = int_buckets e \<Longrightarrow> d = e"
proof (induction d arbitrary: e)
  case Nil
  then show ?case by (simp add: int_buckets_def)
next
  case (Cons b d)
  then obtain b' e' where e: "e = b' # e'" by (cases e) (auto simp: int_buckets_def)
  with Cons.prems have "b = b'" and "int_buckets d = int_buckets e'"
    by (auto simp: int_buckets_def split: prod.splits)
  with Cons.IH e show ?case by simp
qed

lemma key_eq_KStr [simp]:
  "key_eq k (KStr s) = (k = KStr s)" "key_eq (KStr s) k = (k = KStr s)"
proof -
  have "key_value k = None \<or> (\<exists>p q. key_value k = Some (p, q) \<and> k \<noteq> KStr s)"
    by (cases k rule: key_value.cases) auto
  then show "key_eq k (KStr s) = (k = KStr s)" "key_eq (KStr s) k = (k = KStr s)"
    by (auto simp: key_eq_def)
qed




lemma dict_get_nonneg:
  fixes d :: "(key \<times> int) list"
  shows "\<forall>c \<in> set (map snd d). 0 \<le> c \<Longrightarrow> 0 \<le> dict_get d k 0"
  by (induction d) auto

lemma counts_dict_set:
  "c' \<in> set (map snd (dict_set d k c)) \<Longrightarrow> c' = c \<or> c' \<in> set (map snd d)"
  by (induction d) (fastforce split: if_splits)+

lemma member_le_sum_list_int:
  fixes xs :: "int list"
  assumes "\<forall>y \<in> set xs. 0 \<le> y" and "x \<in> set xs"
  shows "x \<le> sum_list xs"
  using assms
proof (induction xs)
  case Nil
  then show ?case by simp
next
  case (Cons y ys)
  then have "0 \<le> sum_list ys" by (simp add: sum_list_nonneg)
  with Cons show ?case by auto
qed

lemma aggregate_step:
  assumes "name \<noteq> ''__metadata__''" and "descriptor v = Some (s, dims)"
  shows "aggregate rt ((name, v) # entries) (int_buckets d, NInt t)
    = aggregate rt entries
        (int_buckets (dict_set d (KStr s) (dict_get d (KStr s) 0 + prod_list dims)),
         NInt (t + prod_list dims))"
  using assms by (simp add: tally_descriptor)


lemma aggregate_well_formed_nonneg:
  assumes "well_formed entries" and "\<forall>c \<in> set (map snd d). 0 \<le> c"
    and "aggregate rt entries (int_buckets d, NInt t) = Inr (int_buckets d', NInt t')"
  shows "\<forall>c \<in> set (map snd d'). 0 \<le> c"
  using assms
proof (induction entries arbitrary: d t)
  case Nil
  then have "d' = d" by (simp add: int_buckets_inj)
  with Nil show ?case by simp
next
  case (Cons entry entries)
  obtain name v where entry: "entry = (name, v)" by (cases entry)
  show ?case
  proof (cases "name = ''__metadata__''")
    case True
    with Cons entry show ?thesis by (simp add: well_formed_def tensors_def)
  next
    case False
    with Cons.prems(1) entry obtain s dims where desc: "descriptor v = Some (s, dims)"
      and dims: "list_all (\<lambda>i. 0 \<le> i) dims"
      by (auto simp: well_formed_def well_formed_entry_def tensors_def split: option.splits)
    let ?c = "dict_get d (KStr s) 0 + prod_list dims"
    have "0 \<le> prod_list dims"
      using dims by (induction dims) auto
    with dict_get_nonneg [OF Cons.prems(2), of "KStr s"] have "0 \<le> ?c" by simp
    have nonneg: "\<forall>c \<in> set (map snd (dict_set d (KStr s) ?c)). 0 \<le> c"
    proof
      fix c'
      assume "c' \<in> set (map snd (dict_set d (KStr s) ?c))"
      then have "c' = ?c \<or> c' \<in> set (map snd d)" by (rule counts_dict_set)
      with \<open>0 \<le> ?c\<close> Cons.prems(2) show "0 \<le> c'" by auto
    qed
    from Cons.prems(1) entry False have wf: "well_formed entries"
      by (simp add: well_formed_def tensors_def)
    from Cons.prems(3)
    have "aggregate rt entries (int_buckets (dict_set d (KStr s) ?c), NInt (t + prod_list dims))
        = Inr (int_buckets d', NInt t')"
      unfolding entry aggregate_step [OF False desc] .
    from Cons.IH [OF wf nonneg this] show ?thesis .
  qed
qed

section \<open>Percentages of a well-formed header\<close>

lemma bitlen_mono: "n \<le> m \<Longrightarrow> bitlen n \<le> bitlen m"
proof (induction m arbitrary: n rule: bitlen.induct)
  case (1 m)
  show ?case
  proof (cases "n = 0")
    case True
    then show ?thesis by (simp add: bitlen.simps)
  next
    case False
    with "1.prems" have m: "m \<noteq> 0" by simp
    from "1.prems" have "n div 2 \<le> m div 2" by (rule div_le_mono)
    from "1.IH" [OF m this] False m show ?thesis
      by (simp add: bitlen.simps [of n] bitlen.simps [of m])
  qed
qed

lemma ilog2_le_0: "n \<le> d \<Longrightarrow> ilog2 n d \<le> 0"
  using bitlen_mono [of n d] by (simp add: ilog2_def Let_def)

lemma nearest_double_le_1:
  assumes "n \<le> d"
  shows "\<exists>m e. nearest_double n d = Some (m, e)"
proof -
  have "\<not> 0 \<le> max (ilog2 n d - 52) (- 1074)"
    using ilog2_le_0 [OF assms] by linarith
  then show ?thesis
    unfolding nearest_double_def Let_def by (simp only: if_False) blast
qed

lemma round_half_even_le:
  assumes "n \<le> d * k" and "0 < d"
  shows "round_half_even n d \<le> k"
proof (cases "n div d < k")
  case True
  then show ?thesis by (simp add: round_half_even_def Let_def)
next
  case False
  from assms have "n div d \<le> k"
    by (metis div_le_mono nonzero_mult_div_cancel_left less_numeral_extra(3))
  with False have q: "n div d = k" by simp
  then have "d * k \<le> n"
    using assms(2) by (metis mult.commute div_times_less_eq_dividend)
  with assms(1) have "n = d * k" by simp
  then have "n mod d = 0" by simp
  with q assms(2) show ?thesis by (simp add: round_half_even_def Let_def)
qed

lemma nearest_double_fraction:
  assumes "n \<le> d" and "0 < d" and "nearest_double n d = Some (m, e)"
  shows "m \<le> e \<and> 0 < e"
proof -
  have neg: "\<not> 0 \<le> max (ilog2 n d - 52) (- 1074)"
    using ilog2_le_0 [OF assms(1)] by linarith
  define j where "j = nat (- max (ilog2 n d - 52) (- 1074))"
  from assms(3) neg have "Some (round_half_even (n * 2 ^ j) d, 2 ^ j) = Some (m, e)"
    unfolding nearest_double_def Let_def j_def by (simp only: if_False)
  then have "m = round_half_even (n * 2 ^ j) d" and e: "e = 2 ^ j"
    by auto
  moreover have "round_half_even (n * 2 ^ j) d \<le> 2 ^ j"
    using assms(1,2) by (intro round_half_even_le) simp_all
  ultimately show ?thesis by simp
qed

lemma bitlen_double: "0 < n \<Longrightarrow> bitlen (2 * n) = Suc (bitlen n)"
  by (simp add: bitlen.simps [of "2 * n"])

lemma bitlen_shift: "0 < n \<Longrightarrow> bitlen (2 ^ k * n) = bitlen n + k"
proof (induction k)
  case 0
  then show ?case by simp
next
  case (Suc k)
  have "bitlen (2 ^ Suc k * n) = bitlen (2 * (2 ^ k * n))"
    by (simp add: mult.assoc)
  also have "\<dots> = Suc (bitlen (2 ^ k * n))"
    using Suc.prems by (intro bitlen_double) simp
  finally show ?case using Suc by simp
qed

lemma bitlen_times_128: "0 < n \<Longrightarrow> bitlen (128 * n) = bitlen n + 7"
  using bitlen_shift [of n 7] by simp

lemma nearest_double_percent:
  assumes "m \<le> e" and "0 < e"
  shows "\<exists>m' e'. nearest_double (m * 100) e = Some (m', e')"
proof -
  have "m * 100 \<le> 128 * e" using assms(1) by simp
  then have "bitlen (m * 100) \<le> bitlen e + 7"
    using bitlen_mono [of "m * 100" "128 * e"] bitlen_times_128 [OF assms(2)] by simp
  then have "ilog2 (m * 100) e \<le> 7"
    by (simp add: ilog2_def Let_def)
  then have "\<not> 0 \<le> max (ilog2 (m * 100) e - 52) (- 1074)" by linarith
  then show ?thesis
    unfolding nearest_double_def Let_def by (simp only: if_False) blast
qed

lemma percentage_two_decimals:
  assumes "0 \<le> a" and "a \<le> b" and "0 < b"
  shows "\<exists>c. percentage (NInt a) (NInt b)
    = Inr (str_nat (c div 100) @ ''.'' @ [digit (c mod 100 div 10), digit (c mod 10)])"
proof -
  have "\<exists>n d. truediv a b = Inr (Finite False n d) \<and> n \<le> d \<and> 0 < d"
  proof (cases "a = 0")
    case True
    with assms show ?thesis by (simp add: truediv_def)
  next
    case False
    from assms have le: "nat \<bar>a\<bar> \<le> nat \<bar>b\<bar>" and pos: "0 < nat \<bar>b\<bar>" by simp_all
    from nearest_double_le_1 [OF le] obtain m e
      where nd: "nearest_double (nat \<bar>a\<bar>) (nat \<bar>b\<bar>) = Some (m, e)" by blast
    from nearest_double_fraction [OF le pos nd] nd False assms show ?thesis
      by (simp add: truediv_def)
  qed
  then obtain n d where q: "truediv a b = Inr (Finite False n d)" and "n \<le> d" and "0 < d"
    by blast
  from nearest_double_percent [OF this(2,3)]
  have "\<exists>n' d'. fmul (Finite False n d) (Finite False 100 1) = Finite False n' d'"
    by (cases "n = 0") (auto simp: round_float_def)
  then obtain n' d' where "fmul (Finite False n d) (Finite False 100 1) = Finite False n' d'"
    by blast
  with q show ?thesis
    by (simp add: percentage_def Let_def) blast
qed





lemma well_formed_buckets:
  assumes "well_formed entries"
    and "aggregate rt entries ([], NInt 0) = Inr (int_buckets dtypes, NInt t)"
    and "(k, c) \<in> set dtypes"
  shows "(\<exists>s. k = KStr s) \<and> 0 \<le> c \<and> c \<le> t"
proof -
  note typed = well_formed_typed [OF assms(1)]
  from aggregate_typed [OF typed, of rt "[]" 0] assms(2)
  have sum: "sum_list (map snd dtypes) = t"
    by (auto dest: int_buckets_inj)
  have agg: "aggregate rt entries (int_buckets [], NInt 0) = Inr (int_buckets dtypes, NInt t)"
    using assms(2) by simp
  have nonneg: "\<forall>c \<in> set (map snd dtypes). 0 \<le> c"
    using aggregate_well_formed_nonneg [OF assms(1) _ agg] by simp
  from assms(3) have mem: "c \<in> set (map snd dtypes)" by force
  have keys: "map fst (int_buckets dtypes) = first_seen (scanned_keys entries)"
    using aggregate_keys [OF assms(2)] by simp
  have "\<forall>k \<in> set (scanned_keys entries). \<exists>s. k = KStr s"
  proof
    fix k'
    assume "k' \<in> set (scanned_keys entries)"
    then obtain name v where "(name, v) \<in> set (tensors entries)" and k': "dtype_key v = Some k'"
      by (auto simp: scanned_keys_def map_filter_def)
    with typed obtain s dims where "descriptor v = Some (s, dims)"
      by (auto simp: list_all_iff)
    then have "dtype_key v = Some (KStr s)"
      by (auto simp: descriptor_def dtype_key_def subscript_def hash_key_def
          split: pyval.splits option.splits)
    with k' show "\<exists>s. k' = KStr s" by auto
  qed
  moreover have "set (first_seen ks) \<subseteq> set ks" for ks
  proof (induction ks rule: first_seen.induct)
    case 1
    then show ?case by simp
  next
    case (2 k ks)
    then show ?case by auto
  qed
  moreover have "k \<in> set (map fst (int_buckets dtypes))"
    using assms(3) by (force simp: int_buckets_def)
  ultimately have "\<exists>s. k = KStr s"
    unfolding keys by blast
  with nonneg mem member_le_sum_list_int [OF nonneg mem] sum show ?thesis
    by auto
qed

section \<open>A dimension equal to zero\<close>






section \<open>The rows of the report\<close>

lemma is_digit_digit: "n < 10 \<Longrightarrow> is_digit (digit n)"
  unfolding digit_def is_digit_def by (rule nth_mem) simp

lemma str_nat_digits: "str_nat n \<noteq> [] \<and> list_all is_digit (str_nat n)"
proof (induction n rule: str_nat.induct)
  case (1 n)
  show ?case
  proof (cases "n < 10")
    case True
    then show ?thesis by (simp add: str_nat.simps [of n] is_digit_digit)
  next
    case False
    with 1 have "list_all is_digit (str_nat (n div 10))" by simp
    with False show ?thesis by (simp add: str_nat.simps [of n] is_digit_digit)
  qed
qed

lemma unsigned_two_decimals_digits:
  assumes "a < 10" and "b < 10"
  shows "unsigned_two_decimals (str_nat q @ ''.'' @ [digit a, digit b])"
  using str_nat_digits [of q] assms
  by (simp add: unsigned_two_decimals_def is_digit_digit)

lemma two_decimals_unsigned:
  assumes "a < 10" and "b < 10"
  shows "two_decimals (str_nat q @ ''.'' @ [digit a, digit b])"
proof -
  from str_nat_digits [of q] obtain h t where q: "str_nat q = h # t" and "is_digit h"
    by (cases "str_nat q") auto
  then have "h \<noteq> CHR ''-''" by (auto simp: is_digit_def)
  with unsigned_two_decimals_digits [OF assms, of q] show ?thesis
    by (simp add: two_decimals_def q)
qed

lemma format_2f_shape:
  "two_decimals (format_2f x) \<or> format_2f x \<in> {''inf'', ''-inf'', ''nan''}"
proof (cases x)
  case (Finite s n d)
  define c where "c = round_half_even (n * 100) d"
  have a: "c mod 100 div 10 < 10" and b: "c mod 10 < 10" by simp_all
  show ?thesis
  proof (cases s)
    case True
    with unsigned_two_decimals_digits [OF a b, of "c div 100"] Finite show ?thesis
      by (simp add: two_decimals_def Let_def c_def)
  next
    case False
    with two_decimals_unsigned [OF a b, of "c div 100"] Finite show ?thesis
      by (simp add: Let_def c_def)
  qed
next
  case (Infinity s)
  then show ?thesis by simp
next
  case NaN
  then show ?thesis by simp
qed

text \<open>
  C4, as the script has it. In a run that finishes, the header is read and parsed, and the
  output is the header-size line, the two section lines and then one row for each bucket, in
  the order of the buckets. The row of a bucket is its dtype, a colon, its count, the word
  \<^verbatim>\<open>elements\<close> and, in parentheses, the percentage and a percent sign. The percentage is the
  count divided by the grand total, times 100, a float, printed by \<^verbatim>\<open>:.2f\<close>: it has exactly
  two decimals when that float is finite, and it is the word \<^verbatim>\<open>inf\<close>, \<^verbatim>\<open>-inf\<close> or \<^verbatim>\<open>nan\<close>
  when it is not. The buckets are in first-seen order: the order in which the dtypes first
  occur in the scan of the entries of the header. On a well-formed header every dtype is a
  text, every count an integer, and every percentage a number with a point and exactly two
  digits after it.
\<close>

theorem rows_in_first_seen_order:
  assumes "fs filename = Some bs" and "ending (main rt loads fs) = Finished"
  shows "\<exists>entries dtypes total_elements rows.
      8 \<le> length bs
    \<and> read_error rt (unpack_Q (take 8 bs)) = None
    \<and> loads (header_json bs) = Inr (PyDict entries)
    \<and> aggregate rt entries ([], NInt 0) = Inr (dtypes, total_elements)
    \<and> stdout (main rt loads fs)
        = [header_size_line bs, tensor_analysis_line, distribution_line] @ rows
    \<and> list_all2 (\<lambda>(dtype, count) line. \<exists>k c q.
            str_key rt dtype = Inr k \<and> str_num rt count = Inr c
          \<and> num_truediv count total_elements = Inr q
          \<and> line = k @ '': '' @ c @ '' elements (''
                @ format_2f (fmul q (Finite False 100 1)) @ ''%)''
          \<and> (two_decimals (format_2f (fmul q (Finite False 100 1)))
              \<or> format_2f (fmul q (Finite False 100 1)) \<in> {''inf'', ''-inf'', ''nan''}))
        dtypes rows
    \<and> map fst dtypes = first_seen (scanned_keys entries)
    \<and> (well_formed entries \<longrightarrow>
          list_all2 (\<lambda>(dtype, count) line. \<exists>s i c.
              dtype = KStr s \<and> count = NInt i
            \<and> line = s @ '': '' @ str_int i @ '' elements (''
                @ str_nat (c div 100) @ ''.'' @ [digit (c mod 100 div 10), digit (c mod 10)]
                @ ''%)'')
            dtypes rows)"
proof -
  have long: "8 \<le> length bs"
  proof (rule ccontr)
    assume "\<not> 8 \<le> length bs"
    then have "ending (main rt loads fs) = SystemExit 1"
      using assms(1) by (simp add: main_def read_open_rb)
    with assms(2) show False by simp
  qed
  have room: "read_error rt (unpack_Q (take 8 bs)) = None"
    using main_long [of fs bs rt loads, OF assms(1) long] assms(2)
    by (cases "read_error rt (unpack_Q (take 8 bs))") auto
  note run = main_read [of fs bs rt loads, OF assms(1) long room]
  from run assms(2) obtain header where parsed: "loads (header_json bs) = Inr header"
    by (cases "loads (header_json bs)") auto
  with run assms(2) have fin: "snd (analyze rt header [header_size_line bs]) = Finished"
    by simp
  then have "analyze rt header [header_size_line bs]
      = (fst (analyze rt header [header_size_line bs]), Finished)"
    by (metis prod.collapse)
  from analyze_finished [OF this] obtain entries dtypes total_elements rows
    where header: "header = PyDict entries"
      and agg: "aggregate rt entries ([], NInt 0) = Inr (dtypes, total_elements)"
      and out: "fst (analyze rt header [header_size_line bs])
        = [header_size_line bs] @ [tensor_analysis_line, distribution_line] @ rows"
      and rows: "list_all2 (\<lambda>(dtype, count) line. row rt dtype count total_elements = Inr line)
        dtypes rows"
    by blast
  have rows': "list_all2 (\<lambda>(dtype, count) line. \<exists>k c q.
            str_key rt dtype = Inr k \<and> str_num rt count = Inr c
          \<and> num_truediv count total_elements = Inr q
          \<and> line = k @ '': '' @ c @ '' elements (''
                @ format_2f (fmul q (Finite False 100 1)) @ ''%)''
          \<and> (two_decimals (format_2f (fmul q (Finite False 100 1)))
              \<or> format_2f (fmul q (Finite False 100 1)) \<in> {''inf'', ''-inf'', ''nan''}))
        dtypes rows"
    using rows
  proof (rule list_all2_mono)
    fix b line
    assume "(\<lambda>(dtype, count) line. row rt dtype count total_elements = Inr line) b line"
    then obtain dtype count where b: "b = (dtype, count)"
      and "row rt dtype count total_elements = Inr line"
      by (cases b) auto
    then obtain k c q where "str_key rt dtype = Inr k" and "str_num rt count = Inr c"
      and "num_truediv count total_elements = Inr q"
      and "line = k @ '': '' @ c @ '' elements (''
                @ format_2f (fmul q (Finite False 100 1)) @ ''%)''"
      unfolding row_Inr by blast
    with format_2f_shape [of "fmul q (Finite False 100 1)"] b
    show "(\<lambda>(dtype, count) line. \<exists>k c q.
            str_key rt dtype = Inr k \<and> str_num rt count = Inr c
          \<and> num_truediv count total_elements = Inr q
          \<and> line = k @ '': '' @ c @ '' elements (''
                @ format_2f (fmul q (Finite False 100 1)) @ ''%)''
          \<and> (two_decimals (format_2f (fmul q (Finite False 100 1)))
              \<or> format_2f (fmul q (Finite False 100 1)) \<in> {''inf'', ''-inf'', ''nan''}))
        b line"
      by simp
  qed
  have order: "map fst dtypes = first_seen (scanned_keys entries)"
    using aggregate_keys [OF agg] by simp
  have out': "stdout (main rt loads fs)
      = [header_size_line bs, tensor_analysis_line, distribution_line] @ rows"
    using run parsed out by simp
  have decimals: "list_all2 (\<lambda>(dtype, count) line. \<exists>s i c.
              dtype = KStr s \<and> count = NInt i
            \<and> line = s @ '': '' @ str_int i @ '' elements (''
                @ str_nat (c div 100) @ ''.'' @ [digit (c mod 100 div 10), digit (c mod 10)]
                @ ''%)'')
            dtypes rows"
    if wf: "well_formed entries"
  proof -
    from aggregate_typed [OF well_formed_typed [OF wf], of rt "[]" 0] agg
    obtain d0 t where d0: "dtypes = int_buckets d0" and t: "total_elements = NInt t"
      by auto
    note agg0 = agg [unfolded d0 t]
    show ?thesis
      using rows
    proof (rule list.rel_mono_strong)
      fix b line
      assume b: "b \<in> set dtypes" and "line \<in> set rows"
        and "(\<lambda>(dtype, count) line. row rt dtype count total_elements = Inr line) b line"
      then obtain dtype count where pair: "b = (dtype, count)"
        and line: "row rt dtype count total_elements = Inr line"
        by (cases b) auto
      from b pair d0 obtain i where count: "count = NInt i" and mem: "(dtype, i) \<in> set d0"
        by (auto simp: int_buckets_def)
      from well_formed_buckets [OF wf agg0 mem]
      obtain s where dtype: "dtype = KStr s" and i: "0 \<le> i" "i \<le> t" by blast
      from line obtain p where short: "\<not> too_long i"
        and p: "percentage (NInt i) (NInt t) = Inr p"
        and shown: "line = s @ '': '' @ str_int i @ '' elements ('' @ p @ ''%)''"
        by (auto simp: row_def dtype count t format_int_def split: sum.splits if_splits)
      from p have "t \<noteq> 0"
        by (auto simp: percentage_def truediv_def)
      with i have "0 < t" by simp
      with i obtain c where "percentage (NInt i) (NInt t)
          = Inr (str_nat (c div 100) @ ''.'' @ [digit (c mod 100 div 10), digit (c mod 10)])"
        using percentage_two_decimals by blast
      with p shown pair dtype count
      show "(\<lambda>(dtype, count) line. \<exists>s i c.
              dtype = KStr s \<and> count = NInt i
            \<and> line = s @ '': '' @ str_int i @ '' elements (''
                @ str_nat (c div 100) @ ''.'' @ [digit (c mod 100 div 10), digit (c mod 10)]
                @ ''%)'') b line"
        by auto
    qed
  qed
  from long room parsed header agg out' rows' order decimals show ?thesis
    by blast
qed

lemma percentage_2_4: "percentage (NInt 2) (NInt 4) = Inr ''50.00''"
  by (simp add: percentage_eval)

text \<open>
  The second example of the specification. The file holds the prefix 96 and the text
  \<^verbatim>\<open>{"a":{"dtype":"F32","shape":[2]},"b":{"dtype":"I64","shape":[2]},"__metadata__":{"format":"pt"}}\<close>;
  the parser knows that text only.
\<close>

theorem rows_in_first_seen_order_witness:
  "main example_runtime
      (\<lambda>j. if j = [0x7B, 0x22, 0x61, 0x22, 0x3A, 0x7B, 0x22, 0x64, 0x74, 0x79, 0x70, 0x65,
      0x22, 0x3A, 0x22, 0x46, 0x33, 0x32, 0x22, 0x2C, 0x22, 0x73, 0x68, 0x61,
      0x70, 0x65, 0x22, 0x3A, 0x5B, 0x32, 0x5D, 0x7D, 0x2C, 0x22, 0x62, 0x22,
      0x3A, 0x7B, 0x22, 0x64, 0x74, 0x79, 0x70, 0x65, 0x22, 0x3A, 0x22, 0x49,
      0x36, 0x34, 0x22, 0x2C, 0x22, 0x73, 0x68, 0x61, 0x70, 0x65, 0x22, 0x3A,
      0x5B, 0x32, 0x5D, 0x7D, 0x2C, 0x22, 0x5F, 0x5F, 0x6D, 0x65, 0x74, 0x61,
      0x64, 0x61, 0x74, 0x61, 0x5F, 0x5F, 0x22, 0x3A, 0x7B, 0x22, 0x66, 0x6F,
      0x72, 0x6D, 0x61, 0x74, 0x22, 0x3A, 0x22, 0x70, 0x74, 0x22, 0x7D, 0x7D]
               then Inr (PyDict
                 [(''a'', PyDict [(''dtype'', PyStr ''F32''), (''shape'', PyList [PyInt 2])]),
                  (''b'', PyDict [(''dtype'', PyStr ''I64''), (''shape'', PyList [PyInt 2])]),
                  (''__metadata__'', PyDict [(''format'', PyStr ''pt'')])])
               else Inl (JSONDecodeError []))
      [filename \<mapsto> [96, 0, 0, 0, 0, 0, 0, 0,
      0x7B, 0x22, 0x61, 0x22, 0x3A, 0x7B, 0x22, 0x64, 0x74, 0x79, 0x70, 0x65,
      0x22, 0x3A, 0x22, 0x46, 0x33, 0x32, 0x22, 0x2C, 0x22, 0x73, 0x68, 0x61,
      0x70, 0x65, 0x22, 0x3A, 0x5B, 0x32, 0x5D, 0x7D, 0x2C, 0x22, 0x62, 0x22,
      0x3A, 0x7B, 0x22, 0x64, 0x74, 0x79, 0x70, 0x65, 0x22, 0x3A, 0x22, 0x49,
      0x36, 0x34, 0x22, 0x2C, 0x22, 0x73, 0x68, 0x61, 0x70, 0x65, 0x22, 0x3A,
      0x5B, 0x32, 0x5D, 0x7D, 0x2C, 0x22, 0x5F, 0x5F, 0x6D, 0x65, 0x74, 0x61,
      0x64, 0x61, 0x74, 0x61, 0x5F, 0x5F, 0x22, 0x3A, 0x7B, 0x22, 0x66, 0x6F,
      0x72, 0x6D, 0x61, 0x74, 0x22, 0x3A, 0x22, 0x70, 0x74, 0x22, 0x7D, 0x7D]]
    = \<lparr>stdout = [''Header size: 96'', tensor_analysis_line, distribution_line,
                 ''F32: 2 elements (50.00%)'', ''I64: 2 elements (50.00%)''],
       reads = [8, 96], ending = Finished\<rparr>"
proof -
  let ?text = "[0x7B, 0x22, 0x61, 0x22, 0x3A, 0x7B, 0x22, 0x64, 0x74, 0x79, 0x70, 0x65,
      0x22, 0x3A, 0x22, 0x46, 0x33, 0x32, 0x22, 0x2C, 0x22, 0x73, 0x68, 0x61,
      0x70, 0x65, 0x22, 0x3A, 0x5B, 0x32, 0x5D, 0x7D, 0x2C, 0x22, 0x62, 0x22,
      0x3A, 0x7B, 0x22, 0x64, 0x74, 0x79, 0x70, 0x65, 0x22, 0x3A, 0x22, 0x49,
      0x36, 0x34, 0x22, 0x2C, 0x22, 0x73, 0x68, 0x61, 0x70, 0x65, 0x22, 0x3A,
      0x5B, 0x32, 0x5D, 0x7D, 0x2C, 0x22, 0x5F, 0x5F, 0x6D, 0x65, 0x74, 0x61,
      0x64, 0x61, 0x74, 0x61, 0x5F, 0x5F, 0x22, 0x3A, 0x7B, 0x22, 0x66, 0x6F,
      0x72, 0x6D, 0x61, 0x74, 0x22, 0x3A, 0x22, 0x70, 0x74, 0x22, 0x7D, 0x7D] :: byte list"
  let ?bs = "[96, 0, 0, 0, 0, 0, 0, 0] @ ?text"
  let ?entries = "[(''a'', PyDict [(''dtype'', PyStr ''F32''), (''shape'', PyList [PyInt 2])]),
                  (''b'', PyDict [(''dtype'', PyStr ''I64''), (''shape'', PyList [PyInt 2])]),
                  (''__metadata__'', PyDict [(''format'', PyStr ''pt'')])]"
  let ?loads = "\<lambda>j. if j = ?text then Inr (PyDict ?entries) else Inl (JSONDecodeError [])"
  have room: "read_error example_runtime (unpack_Q (take 8 ?bs)) = None"
    by (rule read_error_small) simp
  have json: "header_json ?bs = ?text"
    by (simp add: header_json_def)
  have parsed: "?loads (header_json ?bs) = Inr (PyDict ?entries)"
    unfolding json by simp
  have agg: "aggregate example_runtime ?entries ([], NInt 0)
      = Inr ([(KStr ''F32'', NInt 2), (KStr ''I64'', NInt 2)], NInt 4)"
    by (simp add: tally_def subscript_def iter_def py_mul_def hash_key_def add_num_def)
  have two: "str_int 2 = ''2''"
    by (simp add: str_int_def str_nat.simps digit_def)
  have short: "\<not> too_long 2"
    by (rule small_not_too_long) simp
  have "analyze example_runtime (PyDict ?entries) out
      = (out @ [tensor_analysis_line, distribution_line,
                ''F32: 2 elements (50.00%)'', ''I64: 2 elements (50.00%)''], Finished)" for out
    unfolding analyze_dict agg by (simp add: row_def format_int_def short percentage_2_4 two)
  then have run: "main example_runtime ?loads [filename \<mapsto> ?bs]
    = \<lparr>stdout = [''Header size: 96'', tensor_analysis_line, distribution_line,
                 ''F32: 2 elements (50.00%)'', ''I64: 2 elements (50.00%)''],
       reads = [8, 96], ending = Finished\<rparr>"
    using main_read [of "[filename \<mapsto> ?bs]" ?bs example_runtime ?loads, OF _ _ room] parsed
    by (simp add: header_size_line_def str_nat.simps digit_def)
  then have "ending (main example_runtime ?loads [filename \<mapsto> ?bs]) = Finished"
    by simp
  from rows_in_first_seen_order [of "[filename \<mapsto> ?bs]" ?bs example_runtime ?loads, OF _ this] run
  show ?thesis by simp
qed

lemma bitlen_1: "bitlen (Suc 0) = Suc 0"
  by (simp add: bitlen.simps [of "Suc 0"] bitlen.simps [of 0])

lemma bitlen_pow2: "bitlen (2 ^ k) = Suc k"
  using bitlen_shift [of 1 k] by (simp add: bitlen_1)

lemma nearest_double_2_1023: "nearest_double (2 ^ 1023) 1 = Some (2 ^ 1023, 1)"
proof -
  have b: "bitlen (2 ^ 1023) = 1024" using bitlen_pow2 [of 1023] by simp
  have b1: "bitlen 1 = 1" using bitlen_1 by simp
  have i: "ilog2 (2 ^ 1023) 1 = 1023"
    unfolding ilog2_def b b1 by (simp add: Let_def)
  have r: "round_half_even (2 ^ 1023) (2 ^ 971) = 2 ^ 52"
  proof -
    have "(2 :: nat) ^ 1023 = 2 ^ 52 * 2 ^ 971" by (simp flip: power_add)
    then show ?thesis by (simp add: round_half_even_def Let_def)
  qed
  have lt: "\<not> (2 :: nat) ^ 1024 \<le> 2 ^ 52 * 2 ^ 971" by (simp flip: power_add)
  have eq: "(2 :: nat) ^ 52 * 2 ^ 971 = 2 ^ 1023" by (simp flip: power_add)
  show ?thesis
    unfolding nearest_double_def i by (simp add: Let_def r lt eq del: power_numeral)
qed

lemma nearest_double_overflow: "nearest_double (2 ^ 1023 * 100) 1 = None"
proof -
  have "bitlen (2 ^ 1023 * 100) = bitlen 100 + 1023"
    using bitlen_shift [of 100 1023] by simp
  moreover have "bitlen 100 = 7" by (simp add: bitlen.simps)
  ultimately have b: "bitlen (2 ^ 1023 * 100) = 1030" by simp
  have b1: "bitlen 1 = 1" using bitlen_1 by simp
  have le: "(2 :: nat) ^ 1029 \<le> 2 ^ 1023 * 100"
  proof -
    have "(2 :: nat) ^ 1029 = 2 ^ 1023 * 64" by (simp flip: power_add)
    then show ?thesis by simp
  qed
  have i: "ilog2 (2 ^ 1023 * 100) 1 = 1029"
    unfolding ilog2_def b b1 using le by (simp add: Let_def)
  have split: "(2 :: nat) ^ 1023 * 100 = (2 ^ 46 * 100) * 2 ^ 977"
    by (simp flip: power_add)
  have r: "round_half_even (2 ^ 1023 * 100) (2 ^ 977) = 2 ^ 46 * 100"
    unfolding split by (simp add: round_half_even_def Let_def del: power_numeral)
  have big: "(2 :: nat) ^ 1024 \<le> 2 ^ 46 * 100 * 2 ^ 977"
  proof -
    have "(2 :: nat) ^ 1024 = 2 ^ 46 * 2 * 2 ^ 977" by (simp flip: power_add power_Suc)
    also have "\<dots> \<le> 2 ^ 46 * 100 * 2 ^ 977" by (intro mult_le_mono) simp_all
    finally show ?thesis .
  qed
  show ?thesis
    unfolding nearest_double_def i by (simp add: Let_def r big del: power_numeral)
qed

lemma percentage_inf: "percentage (NInt (2 ^ 1023)) (NInt 1) = Inr ''inf''"
proof -
  have "truediv (2 ^ 1023) 1 = Inr (Finite False (2 ^ 1023) 1)"
    using nearest_double_2_1023 by (simp add: truediv_def nat_power_eq)
  moreover have "fmul (Finite False (2 ^ 1023) 1) (Finite False 100 1) = Infinity False"
    using nearest_double_overflow by (simp add: round_float_def)
  ultimately show ?thesis by (simp add: percentage_def)
qed

lemma percentage_minus_inf: "percentage (NInt (- (2 ^ 1023))) (NInt 1) = Inr ''-inf''"
proof -
  have "truediv (- (2 ^ 1023)) 1 = Inr (Finite True (2 ^ 1023) 1)"
    using nearest_double_2_1023 by (simp add: truediv_def nat_power_eq)
  moreover have "fmul (Finite True (2 ^ 1023) 1) (Finite False 100 1) = Infinity True"
    using nearest_double_overflow by (simp add: round_float_def)
  ultimately show ?thesis by (simp add: percentage_def)
qed

text \<open>
  Against C4 as it is worded. Three tensors of dtypes \<^verbatim>\<open>A\<close>, \<^verbatim>\<open>B\<close> and \<^verbatim>\<open>C\<close>, of shapes
  \<open>[2 ^ 1023]\<close>, \<open>[-1, 2 ^ 1023]\<close> and \<open>[1]\<close>: the counts are \<open>2 ^ 1023\<close>, \<open>- 2 ^ 1023\<close> and 1,
  the grand total is 1. The quotient \<open>2 ^ 1023 / 1\<close> is a float, and 100 times that float is
  beyond the largest one: the product is the infinity. The run finishes, and the
  percentages of its first two rows are the words \<^verbatim>\<open>inf\<close> and \<^verbatim>\<open>-inf\<close>, which have no
  decimals.
\<close>

theorem rows_counterexample:
  "analyze example_runtime (PyDict
      [(''a'', PyDict [(''dtype'', PyStr ''A''), (''shape'', PyList [PyInt (2 ^ 1023)])]),
       (''b'', PyDict [(''dtype'', PyStr ''B''),
                      (''shape'', PyList [PyInt (- 1), PyInt (2 ^ 1023)])]),
       (''c'', PyDict [(''dtype'', PyStr ''C''), (''shape'', PyList [PyInt 1])])]) []
    = ([tensor_analysis_line, distribution_line,
        ''A: '' @ str_int (2 ^ 1023) @ '' elements (inf%)'',
        ''B: '' @ str_int (- (2 ^ 1023)) @ '' elements (-inf%)'',
        ''C: 1 elements (100.00%)''], Finished)
   \<and> \<not> two_decimals ''inf'' \<and> \<not> two_decimals ''-inf''"
proof -
  let ?entries = "[(''a'', PyDict [(''dtype'', PyStr ''A''), (''shape'', PyList [PyInt (2 ^ 1023)])]),
       (''b'', PyDict [(''dtype'', PyStr ''B''),
                      (''shape'', PyList [PyInt (- 1), PyInt (2 ^ 1023)])]),
       (''c'', PyDict [(''dtype'', PyStr ''C''), (''shape'', PyList [PyInt 1])])]"
  have agg: "aggregate example_runtime ?entries ([], NInt 0)
      = Inr ([(KStr ''A'', NInt (2 ^ 1023)), (KStr ''B'', NInt (- (2 ^ 1023))),
              (KStr ''C'', NInt 1)], NInt 1)"
    by (simp add: tally_def subscript_def iter_def py_mul_def hash_key_def add_num_def)
  have "\<not> too_long (2 ^ 1023)"
    by (rule small_not_too_long) simp
  with percentage_inf
  have a: "row example_runtime (KStr ''A'') (NInt (2 ^ 1023)) (NInt 1)
      = Inr (''A: '' @ str_int (2 ^ 1023) @ '' elements (inf%)'')"
    by (simp add: row_def format_int_def)
  have "\<not> too_long (- (2 ^ 1023))"
    by (rule small_not_too_long) simp
  with percentage_minus_inf
  have b: "row example_runtime (KStr ''B'') (NInt (- (2 ^ 1023))) (NInt 1)
      = Inr (''B: '' @ str_int (- (2 ^ 1023)) @ '' elements (-inf%)'')"
    by (simp add: row_def format_int_def)
  have "\<not> too_long 1"
    by (rule small_not_too_long) simp
  moreover have "percentage (NInt 1) (NInt 1) = Inr ''100.00''"
    by (simp add: percentage_eval)
  moreover have "str_int 1 = ''1''"
    by (simp add: str_int_def str_nat.simps digit_def)
  ultimately have c: "row example_runtime (KStr ''C'') (NInt 1) (NInt 1)
      = Inr ''C: 1 elements (100.00%)''"
    by (simp add: row_def format_int_def)
  have "analyze example_runtime (PyDict ?entries) []
    = ([tensor_analysis_line, distribution_line,
        ''A: '' @ str_int (2 ^ 1023) @ '' elements (inf%)'',
        ''B: '' @ str_int (- (2 ^ 1023)) @ '' elements (-inf%)'',
        ''C: 1 elements (100.00%)''], Finished)"
    unfolding analyze_dict agg using a b c by simp
  moreover have "\<not> two_decimals ''inf''" and "\<not> two_decimals ''-inf''"
    by (simp_all add: two_decimals_def unsigned_two_decimals_def is_digit_def)
  ultimately show ?thesis by simp
qed

end
